theory Spec2Isabelle
  imports Complex_Main
begin

section \<open>Values of the monitored chain\<close>

text \<open>
  A shallow embedding of \<^verbatim>\<open>src/utils/monitoring.ts\<close>. Every promise that can reject
  and every expression that can throw returns a value of \<open>error + 'a\<close>; the module's two
  caches, the wall clock and the log of the queries sent to the node are one explicit
  \<open>world\<close> that each operation takes and returns.

  Conventions of the model:
  \<^item> a JavaScript \<^verbatim>\<open>BigInt\<close> is an \<open>int\<close>; BigInt division truncates towards zero
    (\<open>bigint_div\<close>) and throws a RangeError on a zero divisor; the assertion of
    \<^verbatim>\<open>toNumber\<close>, when it fails, is an \<open>AssertionError\<close>;
  \<^item> a JavaScript \<^verbatim>\<open>number\<close> is an \<open>int\<close> where the code only holds integers in it
    (timestamps, lengths, block numbers) and a \<open>rat\<close> where it divides
    (\<^verbatim>\<open>weightPercentage\<close>, token amounts, seconds): doubles are taken as exact
    rationals, so values beyond 2^53 and the exponent notation of numbers from 10^21 on
    are outside the model;
  \<^item> a value that may be \<^verbatim>\<open>null\<close> or \<^verbatim>\<open>undefined\<close> is an \<open>option\<close>; strings are
    ASCII;
  \<^item> the caches are plain objects indexed by chain identifiers; identifiers that name a
    member of \<^verbatim>\<open>Object.prototype\<close> are outside the model.
\<close>

datatype error = RpcError string | TypeError | RangeError | AssertionError

text \<open>\<^verbatim>\<open>!account\<close> on an optional string: null, undefined and the empty string are falsy.\<close>

definition truthy :: "string option \<Rightarrow> bool" where
  "truthy a = (case a of None \<Rightarrow> False | Some t \<Rightarrow> t \<noteq> [])"

text \<open>One of the transaction shapes of an ethereum payload.\<close>

record EthTx =
  txGasPrice :: "int option"
  txValue :: "int option"

text \<open>
  The first argument of an \<^verbatim>\<open>ethereum\<close> extrinsic, read the way the formatter reads it:
  three optional shapes and the two direct members.
\<close>

record EthPayload =
  asLegacy :: "EthTx option"
  asEip2930 :: "EthTx option"
  asEip1559 :: "EthTx option"
  gasPrice :: "int option"
  directValue :: "int option"

record Arg =
  argText :: string
  argPayload :: EthPayload

record Method =
  msection :: string
  mname :: string
  margs :: "Arg list"

record Extrinsic =
  xmethod :: Method
  xhash :: string
  xhex :: string

datatype DigestItem = PreRuntime "string list" | OtherItem

record Header =
  number :: nat
  hash :: string
  parentHash :: string
  digestLogs :: "DigestItem list"

record Block =
  header :: Header
  extrinsics :: "Extrinsic list"

datatype Datum = DInt int | DOther string

record Event =
  esection :: string
  emethod :: string
  edata :: "Datum list"

record EventRecord =
  applyExtrinsic :: "nat option"
  event :: Event

datatype DispatchClass = Normal | Operational | Mandatory

datatype Pays = Yes | No

record DispatchInfo =
  weight :: int
  dclass :: DispatchClass
  paysFee :: Pays

record FeeInfo =
  feeWeight :: int
  feeClass :: DispatchClass
  partialFee :: int

record TxWithEventAndFee =
  extrinsic :: Extrinsic
  txEvents :: "Event list"
  dispatchInfo :: "DispatchInfo option"
  fee :: "FeeInfo option"

datatype Data = DataNone | Raw string | Hashed string

record Registration =
  display :: Data

record BlockDetails =
  block :: Block
  authorName :: string
  blockTime :: int
  records :: "EventRecord list"
  txWithEvents :: "TxWithEventAndFee list"
  weightPercentage :: rat

record RealtimeBlockDetails = BlockDetails +
  elapsedMilliSecs :: int
  pendingTxs :: "Extrinsic list"

section \<open>The node and the process state\<close>

text \<open>
  What happens on a subscription. The handler is an \<^verbatim>\<open>async\<close> function, and nothing
  awaits the promise it returns: a notification starts the handler on its header at once,
  whatever handlers are suspended at their \<^verbatim>\<open>await\<close>; later the fetches of a suspended
  handler are there, and it goes on to its end. A subscription is the list of these
  events, in the order in which they happen.
\<close>

datatype head_event = Deliver Header | Complete string

text \<open>The queries the module sends, as a mock of the node would count them.\<close>

datatype rpc_call =
    QueryStorageAt "string list" "string option"
  | IdentityOf string
  | MappingWithDeposit string
  | ApiAt string
  | GetBlock "string option"
  | SystemEvents string
  | TimestampNow string
  | QueryInfo string string
  | GetBlockHash int
  | PendingExtrinsics
  | SubscribeHeads bool

text \<open>
  The \<^verbatim>\<open>ApiPromise\<close> the functions receive, with the library functions they import: each
  query is a function of its arguments that answers or fails, and takes \<open>latency\<close>
  milliseconds of the wall clock. A head subscription is the list of the events on it:
  the headers it delivers and, between them, the moments at which the fetches of a
  handler are there.
\<close>

record api =
  maxBlock :: int
  apiAt :: "string \<Rightarrow> error + unit"
  getBlock :: "string option \<Rightarrow> error + Block"
  systemEvents :: "string \<Rightarrow> error + EventRecord list"
  timestampNow :: "string \<Rightarrow> error + int"
  queryInfo :: "string \<Rightarrow> string \<Rightarrow> error + FeeInfo"
  identityOf :: "string \<Rightarrow> error + Registration option"
  queryStorageAt :: "string list \<Rightarrow> string option \<Rightarrow> error + Registration option list"
  mappingWithDeposit :: "string \<Rightarrow> error + string option"
  getBlockHash :: "int \<Rightarrow> error + string"
  pendingExtrinsics :: "error + Extrinsic list"
  subscribeHeads :: "bool \<Rightarrow> error + head_event list"
  latency :: "rpc_call \<Rightarrow> int"
  ethereumEncode :: "string \<Rightarrow> string"
  xxhashAsHex :: "string \<Rightarrow> nat \<Rightarrow> string"
  stringToHex :: "string \<Rightarrow> string"
  dispatchOutcome :: "Event list \<Rightarrow> DispatchInfo option"

record IdentityEntry =
  identity :: "Registration option"
  lastUpdate :: int

record MappingEntry =
  account :: "string option"
  mappingLastUpdate :: int

record world =
  identityCache :: "string \<rightharpoonup> IdentityEntry"
  authorMappingCache :: "string \<rightharpoonup> MappingEntry"
  now :: int
  calls :: "rpc_call list"

text \<open>Sending a query: it is logged, and the clock has moved when the answer is there.\<close>

definition rpc :: "api \<Rightarrow> rpc_call \<Rightarrow> world \<Rightarrow> world" where
  "rpc a q s = s\<lparr>now := now s + latency a q, calls := calls s @ [q]\<rparr>"

section \<open>Identity resolver\<close>

text \<open>
  \<^verbatim>\<open>getIdentityKey\<close>: the hex of the two hashed storage prefixes, the hashed account and
  the account itself, one after the other. \<open>xxhashAsHex t n\<close> is the hex of
  \<^verbatim>\<open>xxhashAsU8a(t, n)\<close> and \<open>stringToHex t\<close> the hex of the bytes of \<open>t\<close>.
\<close>

definition getIdentityKey :: "api \<Rightarrow> string \<Rightarrow> string" where
  "getIdentityKey a acc =
     ''0x'' @ xxhashAsHex a ''Identity'' 128 @ xxhashAsHex a ''IdentityOf'' 128
       @ xxhashAsHex a acc 64 @ stringToHex a acc"

text \<open>
  \<^verbatim>\<open>!identityCache[account] || identityCache[account].lastUpdate < Date.now() - 3600 * 1000\<close>
\<close>

definition identityMissing :: "world \<Rightarrow> string \<Rightarrow> bool" where
  "identityMissing s acc =
     (case identityCache s acc of
        None \<Rightarrow> True
      | Some e \<Rightarrow> lastUpdate e < now s - 3600 * 1000)"

definition mappingMissing :: "world \<Rightarrow> string \<Rightarrow> bool" where
  "mappingMissing s author =
     (case authorMappingCache s author of
        None \<Rightarrow> True
      | Some e \<Rightarrow> mappingLastUpdate e < now s - 3600 * 1000)"

text \<open>
  \<^verbatim>\<open>u8aToString(identity.info.display.asRaw.toU8a(true))\<close>: \<^verbatim>\<open>asRaw\<close> hands out the value
  of the display field whatever its variant, and its bytes are read as text: the empty
  text for no display, the raw text, or the bytes of a hash.
\<close>

definition displayText :: "Registration \<Rightarrow> string" where
  "displayText r = (case display r of DataNone \<Rightarrow> [] | Raw t \<Rightarrow> t | Hashed t \<Rightarrow> t)"

text \<open>
  The \<^verbatim>\<open>forEach\<close> of \<^verbatim>\<open>getAccountIdentities\<close>: answer \<open>i\<close> is stored under
  \<^verbatim>\<open>missingAccounts[i]\<close>, which is \<^verbatim>\<open>undefined\<close> (the key \<^verbatim>\<open>"undefined"\<close>) past the end.
\<close>

fun storeIdentities ::
  "string list \<Rightarrow> int \<Rightarrow> Registration option list \<Rightarrow> nat
    \<Rightarrow> (string \<rightharpoonup> IdentityEntry) \<Rightarrow> (string \<rightharpoonup> IdentityEntry)" where
  "storeIdentities missing t [] i c = c"
| "storeIdentities missing t (d # ds) i c =
     storeIdentities missing t ds (Suc i)
       (c((if i < length missing then missing ! i else ''undefined'')
            \<mapsto> \<lparr>identity = d, lastUpdate = t\<rparr>))"

text \<open>The final \<^verbatim>\<open>accounts.map\<close> of \<^verbatim>\<open>getAccountIdentities\<close>, one account at a time.\<close>

definition cachedDisplay :: "world \<Rightarrow> string option \<Rightarrow> error + string option" where
  "cachedDisplay s acc =
     (if truthy acc then
        (case identityCache s (the acc) of
           None \<Rightarrow> Inl TypeError
         | Some e \<Rightarrow>
             (case identity e of
                None \<Rightarrow> Inr acc
              | Some r \<Rightarrow> Inr (Some (displayText r))))
      else Inr acc)"

text \<open>A \<^verbatim>\<open>map\<close> whose callback may throw: the first failure is the result.\<close>

fun collect :: "(error + 'a) list \<Rightarrow> error + 'a list" where
  "collect [] = Inr []"
| "collect (r # rs) =
     (case r of
        Inl e \<Rightarrow> Inl e
      | Inr x \<Rightarrow> (case collect rs of Inl e \<Rightarrow> Inl e | Inr xs \<Rightarrow> Inr (x # xs)))"

definition missingAccountsOf :: "world \<Rightarrow> string option list \<Rightarrow> string list" where
  "missingAccountsOf s accounts =
     List.map_filter
       (\<lambda>acc. if truthy acc \<and> identityMissing s (the acc) then acc else None) accounts"

definition getAccountIdentities ::
  "api \<Rightarrow> string option list option \<Rightarrow> string option \<Rightarrow> world
    \<Rightarrow> (error + string option list) \<times> world" where
  "getAccountIdentities a accounts atHash s =
     (case accounts of
        None \<Rightarrow> (Inr [], s)
      | Some accs \<Rightarrow>
          if length accs = 0 then (Inr [], s)
          else
            let missingAccounts = missingAccountsOf s accs;
                (fetched, s') =
                  (if length missingAccounts > 0 then
                     let keys = map (getIdentityKey a) missingAccounts;
                         s1 = rpc a (QueryStorageAt keys atHash) s
                     in (case queryStorageAt a keys atHash of
                           Inl e \<Rightarrow> (Inl e, s1)
                         | Inr identities \<Rightarrow>
                             (Inr (),
                              s1\<lparr>identityCache :=
                                   storeIdentities missingAccounts (now s1) identities 0
                                     (identityCache s1)\<rparr>))
                   else (Inr (), s))
            in (case fetched of
                  Inl e \<Rightarrow> (Inl e, s')
                | Inr _ \<Rightarrow> (collect (map (cachedDisplay s') accs), s')))"

definition getAccountIdentity ::
  "api \<Rightarrow> string option \<Rightarrow> world \<Rightarrow> (error + string) \<times> world" where
  "getAccountIdentity a acc s =
     (if \<not> truthy acc then (Inr '''', s)
      else
        let k = the acc;
            (fetched, s') =
              (if identityMissing s k then
                 let s1 = rpc a (IdentityOf k) s
                 in (case identityOf a k of
                       Inl e \<Rightarrow> (Inl e, s1)
                     | Inr identityData \<Rightarrow>
                         (Inr (),
                          s1\<lparr>identityCache :=
                               (identityCache s1)
                                 (k \<mapsto> \<lparr>identity = identityData, lastUpdate = now s1\<rparr>)\<rparr>))
               else (Inr (), s))
        in (case fetched of
              Inl e \<Rightarrow> (Inl e, s')
            | Inr _ \<Rightarrow>
                (case identityCache s' k of
                   None \<Rightarrow> (Inl TypeError, s')
                 | Some e \<Rightarrow>
                     (case identity e of
                        None \<Rightarrow> (Inr k, s')
                      | Some r \<Rightarrow> (Inr (displayText r), s')))))"

definition getAuthorIdentity ::
  "api \<Rightarrow> string \<Rightarrow> world \<Rightarrow> (error + string) \<times> world" where
  "getAuthorIdentity a author s =
     (let (fetched, s') =
            (if mappingMissing s author then
               let s1 = rpc a (MappingWithDeposit author) s
               in (case mappingWithDeposit a author of
                     Inl e \<Rightarrow> (Inl e, s1)
                   | Inr mappingData \<Rightarrow>
                       (Inr (),
                        s1\<lparr>authorMappingCache :=
                             (authorMappingCache s1)
                               (author \<mapsto>
                                  \<lparr>account = map_option (ethereumEncode a) mappingData,
                                   mappingLastUpdate = now s1\<rparr>)\<rparr>))
             else (Inr (), s))
      in (case fetched of
            Inl e \<Rightarrow> (Inl e, s')
          | Inr _ \<Rightarrow>
              (case authorMappingCache s' author of
                 None \<Rightarrow> (Inl TypeError, s')
               | Some e \<Rightarrow> getAccountIdentity a (account e) s')))"

section \<open>Block aggregator\<close>

definition isSetAuthor :: "Extrinsic \<Rightarrow> bool" where
  "isSetAuthor tx =
     (msection (xmethod tx) = ''authorInherent'' \<and> mname (xmethod tx) = ''setAuthor'')"

text \<open>\<^verbatim>\<open>block.extrinsics.find(...)?.args[0]?.toString()\<close>\<close>

definition authorFromExtrinsics :: "Extrinsic list \<Rightarrow> string option" where
  "authorFromExtrinsics exts =
     (case find isSetAuthor exts of
        None \<Rightarrow> None
      | Some tx \<Rightarrow> (case margs (xmethod tx) of [] \<Rightarrow> None | x # _ \<Rightarrow> Some (argText x)))"

definition isNimbusLog :: "DigestItem \<Rightarrow> bool" where
  "isNimbusLog l =
     (case l of
        PreRuntime items \<Rightarrow> (case items of [] \<Rightarrow> False | engine # _ \<Rightarrow> engine = ''nmbs'')
      | OtherItem \<Rightarrow> False)"

text \<open>\<^verbatim>\<open>block.header.digest.logs.find(...)?.asPreRuntime[1]?.toString()\<close>\<close>

definition authorFromDigest :: "DigestItem list \<Rightarrow> string option" where
  "authorFromDigest logs =
     (case find isNimbusLog logs of
        Some (PreRuntime items) \<Rightarrow> (if 1 < length items then Some (items ! 1) else None)
      | _ \<Rightarrow> None)"

definition findAuthorId :: "Block \<Rightarrow> string option" where
  "findAuthorId blk =
     (let fromInherent = authorFromExtrinsics (extrinsics blk)
      in if truthy fromInherent then fromInherent
         else authorFromDigest (digestLogs (header blk)))"

definition zeroAccount :: string where
  "zeroAccount = ''0x'' @ replicate 64 (CHR ''0'')"

text \<open>
  Modelled from the spec: \<^verbatim>\<open>mapExtrinsics\<close> of \<^verbatim>\<open>./types\<close>, which is not among the
  sources. The spec: each extrinsic is correlated with its emitted events (an event
  carries the index of its extrinsic) and with its fee quote by position, into one
  composite record per extrinsic that also holds its dispatch outcome. How the outcome
  is read off the events is not said: it is the parameter \<open>dispatchOutcome\<close>.
\<close>

definition mapExtrinsics ::
  "api \<Rightarrow> Extrinsic list \<Rightarrow> EventRecord list \<Rightarrow> FeeInfo list \<Rightarrow> TxWithEventAndFee list" where
  "mapExtrinsics a exts recs fees =
     map (\<lambda>(i, ext).
            let evs = map event (filter (\<lambda>r. applyExtrinsic r = Some i) recs)
            in \<lparr>extrinsic = ext, txEvents = evs, dispatchInfo = dispatchOutcome a evs,
                fee = (if i < length fees then Some (fees ! i) else None)\<rparr>)
         (enumerate 0 exts)"

text \<open>
  The \<^verbatim>\<open>reduce\<close> of the block weight from \<^verbatim>\<open>0n\<close>: adding the \<^verbatim>\<open>undefined\<close> of a
  missing \<^verbatim>\<open>dispatchInfo\<close> to a BigInt is a TypeError.
\<close>

fun blockWeightFrom :: "int \<Rightarrow> TxWithEventAndFee list \<Rightarrow> error + int" where
  "blockWeightFrom totalWeight [] = Inr totalWeight"
| "blockWeightFrom totalWeight (tx # txs) =
     (case dispatchInfo tx of
        None \<Rightarrow> Inl TypeError
      | Some d \<Rightarrow> blockWeightFrom (totalWeight + weight d) txs)"

definition bigint_div :: "int \<Rightarrow> int \<Rightarrow> error + int" where
  "bigint_div x y =
     (if y = 0 then Inl RangeError else Inr (sgn x * sgn y * (\<bar>x\<bar> div \<bar>y\<bar>)))"

text \<open>\<^verbatim>\<open>toNumber()\<close> of a chain integer: refused beyond 53 bits.\<close>

definition toNumber :: "int \<Rightarrow> error + int" where
  "toNumber n = (if \<bar>n\<bar> < 2 ^ 53 then Inr n else Inl AssertionError)"

text \<open>The log of the fee-quote queries, one per extrinsic, against the parent block.\<close>

fun feeQueries :: "api \<Rightarrow> string \<Rightarrow> Extrinsic list \<Rightarrow> world \<Rightarrow> world" where
  "feeQueries a parent [] s = s"
| "feeQueries a parent (ext # exts) s =
     feeQueries a parent exts (rpc a (QueryInfo (xhex ext) parent) s)"

text \<open>
  \<^verbatim>\<open>getBlockDetails\<close>. The members of a \<^verbatim>\<open>Promise.all\<close> are all started, so each of them
  has its effect on the world whether or not another one fails; the model runs them in
  the order of the array and reports the first failure in that order.
\<close>

definition getBlockDetails ::
  "api \<Rightarrow> string \<Rightarrow> world \<Rightarrow> (error + BlockDetails) \<times> world" where
  "getBlockDetails a blockHash s =
     (let maxBlockWeight = maxBlock a;
          s1 = rpc a (ApiAt blockHash) s
      in case apiAt a blockHash of
           Inl e \<Rightarrow> (Inl e, s1)
         | Inr _ \<Rightarrow>
        let s2 = rpc a (TimestampNow blockHash)
                   (rpc a (SystemEvents blockHash) (rpc a (GetBlock (Some blockHash)) s1))
        in case getBlock a (Some blockHash) of
             Inl e \<Rightarrow> (Inl e, s2)
           | Inr blk \<Rightarrow>
          (case systemEvents a blockHash of
             Inl e \<Rightarrow> (Inl e, s2)
           | Inr recs \<Rightarrow>
          (case timestampNow a blockHash of
             Inl e \<Rightarrow> (Inl e, s2)
           | Inr blockTimeNow \<Rightarrow>
          let authorId = findAuthorId blk;
              s3 = feeQueries a (parentHash (header blk)) (extrinsics blk) s2;
              feeAnswers =
                collect (map (\<lambda>ext. queryInfo a (xhex ext) (parentHash (header blk)))
                           (extrinsics blk));
              (authorAnswer, s4) =
                (if truthy authorId then getAuthorIdentity a (the authorId) s3
                 else (Inr zeroAccount, s3))
          in case feeAnswers of
               Inl e \<Rightarrow> (Inl e, s4)
             | Inr fees \<Rightarrow>
            (case authorAnswer of
               Inl e \<Rightarrow> (Inl e, s4)
             | Inr author \<Rightarrow>
            let txs = mapExtrinsics a (extrinsics blk) recs fees
            in case blockWeightFrom 0 txs of
                 Inl e \<Rightarrow> (Inl e, s4)
               | Inr blockWeight \<Rightarrow>
              (case toNumber blockTimeNow of
                 Inl e \<Rightarrow> (Inl e, s4)
               | Inr t \<Rightarrow>
              (case bigint_div (blockWeight * 10000) maxBlockWeight of
                 Inl e \<Rightarrow> (Inl e, s4)
               | Inr q \<Rightarrow>
                 (Inr \<lparr>block = blk, authorName = author, blockTime = t, records = recs,
                       txWithEvents = txs, weightPercentage = of_int q / 100\<rparr>,
                  s4)))))))"

section \<open>Range walker\<close>

record BlockRangeOption =
  range_from :: int
  range_to :: int
  concurrency :: "int option"

text \<open>
  The inner \<^verbatim>\<open>for\<close> loop: the block numbers of one batch, and \<^verbatim>\<open>current\<close> after it.
\<close>

function batchNumbers :: "int \<Rightarrow> int \<Rightarrow> int \<Rightarrow> int \<Rightarrow> int list \<times> int" where
  "batchNumbers i conc current to_block =
     (if i < conc \<and> current \<le> to_block then
        (let (ns, current') = batchNumbers (i + 1) conc (current + 1) to_block
         in (current # ns, current'))
      else ([], current))"
  by pat_completeness auto
termination
  by (relation "measure (\<lambda>(i, conc, current, to_block). nat (conc - i))") auto

text \<open>\<^verbatim>\<open>api.rpc.chain.getBlockHash(current++).then((hash) => getBlockDetails(api, hash))\<close>\<close>

definition blockTask :: "api \<Rightarrow> int \<Rightarrow> world \<Rightarrow> (error + BlockDetails) \<times> world" where
  "blockTask a n s =
     (let s1 = rpc a (GetBlockHash n) s
      in case getBlockHash a n of
           Inl e \<Rightarrow> (Inl e, s1)
         | Inr h \<Rightarrow> getBlockDetails a h s1)"

text \<open>
  The tasks of a batch. JavaScript interleaves them at their awaits; the model runs them
  one after the other, each to its end.
\<close>

fun runTasks :: "api \<Rightarrow> int list \<Rightarrow> world \<Rightarrow> (error + BlockDetails) list \<times> world" where
  "runTasks a [] s = ([], s)"
| "runTasks a (n # ns) s =
     (let (r, s1) = blockTask a n s;
          (rs, s2) = runTasks a ns s1
      in (r # rs, s2))"

text \<open>
  \<^verbatim>\<open>for (const blockDetails of blocksDetails) await callBack(blockDetails)\<close>, for a callback
  with a state \<open>'c\<close> of its own that may fail.
\<close>

fun callBackEach ::
  "(BlockDetails \<Rightarrow> 'c \<Rightarrow> (error + unit) \<times> 'c) \<Rightarrow> BlockDetails list \<Rightarrow> 'c
    \<Rightarrow> (error + unit) \<times> 'c" where
  "callBackEach callBack [] c = (Inr (), c)"
| "callBackEach callBack (d # ds) c =
     (case callBack d c of
        (Inl e, c1) \<Rightarrow> (Inl e, c1)
      | (Inr _, c1) \<Rightarrow> callBackEach callBack ds c1)"

text \<open>
  The outer \<^verbatim>\<open>while (current <= to)\<close>. It does not end when \<^verbatim>\<open>concurrency\<close> is below 1
  (every batch is empty), so the result is an \<open>option\<close>: \<open>None\<close> is a walk that never
  returns.
\<close>

partial_function (option) exploreLoop ::
  "api \<Rightarrow> int \<Rightarrow> int \<Rightarrow> (BlockDetails \<Rightarrow> 'c \<Rightarrow> (error + unit) \<times> 'c) \<Rightarrow> int \<Rightarrow> world \<Rightarrow> 'c
    \<Rightarrow> ((error + unit) \<times> world \<times> 'c) option" where
  "exploreLoop a to_block conc callBack current s c =
     (if current \<le> to_block then
        (case batchNumbers 0 conc current to_block of
           (ns, current') \<Rightarrow>
             (case runTasks a ns s of
                (concurrentTasks, s1) \<Rightarrow>
                  (case collect concurrentTasks of
                     Inl e \<Rightarrow> Some (Inl e, s1, c)
                   | Inr blocksDetails \<Rightarrow>
                       (case callBackEach callBack blocksDetails c of
                          (Inl e, c1) \<Rightarrow> Some (Inl e, s1, c1)
                        | (Inr _, c1) \<Rightarrow>
                            exploreLoop a to_block conc callBack current' s1 c1))))
      else Some (Inr (), s, c))"

definition exploreBlockRange ::
  "api \<Rightarrow> BlockRangeOption \<Rightarrow> (BlockDetails \<Rightarrow> 'c \<Rightarrow> (error + unit) \<times> 'c) \<Rightarrow> world \<Rightarrow> 'c
    \<Rightarrow> ((error + unit) \<times> world \<times> 'c) option" where
  "exploreBlockRange a opts callBack s c =
     exploreLoop a (range_to opts)
       (case concurrency opts of None \<Rightarrow> 1 | Some k \<Rightarrow> k)
       callBack (range_from opts) s c"

section \<open>Live follower\<close>

text \<open>The \<^verbatim>\<open>try\<close> block of \<^verbatim>\<open>listenBlocks\<close>: any failure leaves the baseline at 0.\<close>

definition startupBaseline :: "api \<Rightarrow> world \<Rightarrow> int \<times> world" where
  "startupBaseline a s =
     (let s1 = rpc a (GetBlock None) s
      in case getBlock a None of
           Inl e \<Rightarrow> (0, s1)
         | Inr b \<Rightarrow>
             let s2 = rpc a (TimestampNow (parentHash (header b))) s1
             in (case timestampNow a (parentHash (header b)) of
                   Inl e \<Rightarrow> (0, s2)
                 | Inr t \<Rightarrow> (case toNumber t of Inl e \<Rightarrow> (0, s2) | Inr n \<Rightarrow> (n, s2))))"

text \<open>\<^verbatim>\<open>{ ...blockDetails, pendingTxs, elapsedMilliSecs }\<close>\<close>

definition realtimeOf :: "BlockDetails \<Rightarrow> Extrinsic list \<Rightarrow> int \<Rightarrow> RealtimeBlockDetails" where
  "realtimeOf d pending elapsed =
     \<lparr>block = block d, authorName = authorName d, blockTime = blockTime d,
      records = records d, txWithEvents = txWithEvents d,
      weightPercentage = weightPercentage d,
      elapsedMilliSecs = elapsed, pendingTxs = pending\<rparr>"

text \<open>
  The handler given to the subscription, on one header. Its state is
  \<^verbatim>\<open>latestBlockTime\<close>, the world and the state of the callback. The callback is not
  awaited: what its promise becomes is not looked at.
\<close>

definition onHead ::
  "api \<Rightarrow> (RealtimeBlockDetails \<Rightarrow> 'c \<Rightarrow> 'c) \<Rightarrow> Header \<Rightarrow> int \<times> world \<times> 'c
    \<Rightarrow> (error + unit) \<times> int \<times> world \<times> 'c" where
  "onHead a callBack lastHeader st =
     (case st of
        (latestBlockTime, s, c) \<Rightarrow>
          (case getBlockDetails a (hash lastHeader) s of
             (detailsAnswer, s1) \<Rightarrow>
               let s2 = rpc a PendingExtrinsics s1
               in (case detailsAnswer of
                     Inl e \<Rightarrow> (Inl e, latestBlockTime, s2, c)
                   | Inr blockDetails \<Rightarrow>
                       (case pendingExtrinsics a of
                          Inl e \<Rightarrow> (Inl e, latestBlockTime, s2, c)
                        | Inr pending \<Rightarrow>
                            (Inr (), blockTime blockDetails, s2,
                             callBack
                               (realtimeOf blockDetails pending
                                  (blockTime blockDetails - latestBlockTime))
                               c)))))"

text \<open>
  What an observer sees of the handlers: the aggregation for a head begins; the callback
  for a head has been invoked and has returned; the handler for a head has failed
  without a callback. Heads are named by their hashes.
\<close>

datatype handler_event = Begin string | Returned string | Failed string

text \<open>
  The follower between two events: \<^verbatim>\<open>latestBlockTime\<close>, the world, the state of the
  callback, the headers whose handlers are suspended, and what has been observed.
\<close>

record 'c follower =
  latestBlockTime :: int
  fworld :: world
  observer :: 'c
  inFlight :: "Header list"
  trace :: "handler_event list"

definition startFollower :: "int \<Rightarrow> world \<Rightarrow> 'c \<Rightarrow> 'c follower" where
  "startFollower baseline s c =
     \<lparr>latestBlockTime = baseline, fworld = s, observer = c, inFlight = [], trace = []\<rparr>"

text \<open>A notification: the handler starts, and is suspended at \<^verbatim>\<open>await Promise.all\<close>.\<close>

definition deliverHead :: "Header \<Rightarrow> 'c follower \<Rightarrow> 'c follower" where
  "deliverHead h f = f\<lparr>inFlight := inFlight f @ [h], trace := trace f @ [Begin (hash h)]\<rparr>"

text \<open>
  The fetches of the suspended handler for the head with hash \<open>k\<close> are there: the rest of
  the handler runs without another suspension, so \<^verbatim>\<open>latestBlockTime\<close> is read and written
  as it is at that moment. The queries and the cache writes of the aggregation are
  accounted for here, in one piece. An event for a head that has no suspended handler
  does nothing.
\<close>

definition completeHead ::
  "api \<Rightarrow> (RealtimeBlockDetails \<Rightarrow> 'c \<Rightarrow> 'c) \<Rightarrow> string \<Rightarrow> 'c follower \<Rightarrow> 'c follower" where
  "completeHead a callBack k f =
     (case find (\<lambda>h. hash h = k) (inFlight f) of
        None \<Rightarrow> f
      | Some h \<Rightarrow>
          (case onHead a callBack h (latestBlockTime f, fworld f, observer f) of
             (r, latest, s, c) \<Rightarrow>
               \<lparr>latestBlockTime = latest, fworld = s, observer = c,
                inFlight = remove1 h (inFlight f),
                trace = trace f @ [case r of Inl e \<Rightarrow> Failed k | Inr u \<Rightarrow> Returned k]\<rparr>))"

fun runHeads ::
  "api \<Rightarrow> (RealtimeBlockDetails \<Rightarrow> 'c \<Rightarrow> 'c) \<Rightarrow> head_event list \<Rightarrow> 'c follower
    \<Rightarrow> 'c follower" where
  "runHeads a callBack [] f = f"
| "runHeads a callBack (Deliver h # evs) f = runHeads a callBack evs (deliverHead h f)"
| "runHeads a callBack (Complete k # evs) f =
     runHeads a callBack evs (completeHead a callBack k f)"

definition listenBlocks ::
  "api \<Rightarrow> bool \<Rightarrow> (RealtimeBlockDetails \<Rightarrow> 'c \<Rightarrow> 'c) \<Rightarrow> world \<Rightarrow> 'c
    \<Rightarrow> (error + unit) \<times> 'c follower" where
  "listenBlocks a finalized callBack s c =
     (case startupBaseline a s of
        (baseline, s1) \<Rightarrow>
          let s2 = rpc a (SubscribeHeads finalized) s1
          in (case subscribeHeads a finalized of
                Inl e \<Rightarrow> (Inl e, startFollower baseline s2 c)
              | Inr notifications \<Rightarrow>
                  (Inr (), runHeads a callBack notifications (startFollower baseline s2 c))))"

section \<open>Snapshot formatter\<close>

subsection \<open>Strings and numbers of the JavaScript library\<close>

definition digitChar :: "nat \<Rightarrow> char" where
  "digitChar n = ''0123456789'' ! (n mod 10)"

fun natToString :: "nat \<Rightarrow> string" where
  "natToString n =
     (if n < 10 then [digitChar n] else natToString (n div 10) @ [digitChar (n mod 10)])"

declare natToString.simps [simp del]

definition intToString :: "int \<Rightarrow> string" where
  "intToString i = (if i < 0 then ''-'' @ natToString (nat (- i)) else natToString (nat i))"

definition padStart :: "nat \<Rightarrow> string \<Rightarrow> string" where
  "padStart n t = replicate (n - length t) (CHR '' '') @ t"

definition padEnd :: "nat \<Rightarrow> string \<Rightarrow> string" where
  "padEnd n t = t @ replicate (n - length t) (CHR '' '')"

text \<open>
  \<^verbatim>\<open>x.toFixed(d)\<close>: the integer \<open>n\<close> with \<open>n / 10^d\<close> nearest to \<open>\<bar>x\<bar>\<close> (the larger one
  of two), written with at least \<open>d + 1\<close> digits and a point before the last \<open>d\<close>.
\<close>

definition toFixed :: "nat \<Rightarrow> rat \<Rightarrow> string" where
  "toFixed d x =
     (let n = nat \<lfloor>\<bar>x\<bar> * 10 ^ d + 1 / 2\<rfloor>;
          digits = natToString n;
          padded = replicate (Suc d - length digits) (CHR ''0'') @ digits;
          k = length padded - d
      in (if x < 0 then ''-'' else []) @ take k padded
           @ (if d = 0 then [] else ''.'' @ drop k padded))"

text \<open>BigInt division by a non-zero constant: truncated towards zero.\<close>

definition tdiv :: "int \<Rightarrow> int \<Rightarrow> int" where
  "tdiv x y = sgn x * sgn y * (\<bar>x\<bar> div \<bar>y\<bar>)"

text \<open>
  What the formatter reads from its surroundings: the clock (\<^verbatim>\<open>new Date()\<close>, in
  milliseconds), the offset of the local time zone in milliseconds, and whether chalk
  colours its output (its level is above 0).
\<close>

record env =
  clockNow :: int
  tzOffset :: int
  colors :: bool

definition chalk :: "env \<Rightarrow> string \<Rightarrow> string \<Rightarrow> string" where
  "chalk e code t =
     (if colors e \<and> t \<noteq> [] then [CHR 0x1B] @ ''['' @ code @ ''m'' @ t @ [CHR 0x1B] @ ''[39m''
      else t)"

definition red :: "env \<Rightarrow> string \<Rightarrow> string" where
  "red e t = chalk e ''31'' t"

definition green :: "env \<Rightarrow> string \<Rightarrow> string" where
  "green e t = chalk e ''32'' t"

definition yellow :: "env \<Rightarrow> string \<Rightarrow> string" where
  "yellow e t = chalk e ''33'' t"

definition twoDigits :: "nat \<Rightarrow> string" where
  "twoDigits n = [digitChar (n div 10), digitChar n]"

text \<open>
  \<^verbatim>\<open>new Date().toLocaleTimeString("fr-FR", ...)\<close> with two digits each: the local time of
  day as \<^verbatim>\<open>HH:MM:SS\<close>.
\<close>

definition localeTime :: "env \<Rightarrow> string" where
  "localeTime e =
     (let secs = nat (((clockNow e + tzOffset e) div 1000) mod 86400)
      in twoDigits (secs div 3600) @ '':'' @ twoDigits (secs div 60 mod 60) @ '':''
           @ twoDigits (secs mod 60))"

subsection \<open>The pieces of the line\<close>

record LogOptions =
  opt_prefix :: "string option"
  opt_suffix :: "string option"

text \<open>\<^verbatim>\<open>BlockDetails | RealtimeBlockDetails\<close>\<close>

datatype AnyBlockDetails = Basic BlockDetails | Realtime RealtimeBlockDetails

fun base :: "AnyBlockDetails \<Rightarrow> BlockDetails" where
  "base (Basic d) = d"
| "base (Realtime r) =
     \<lparr>block = block r, authorName = authorName r, blockTime = blockTime r,
      records = records r, txWithEvents = txWithEvents r,
      weightPercentage = weightPercentage r\<rparr>"

text \<open>\<^verbatim>\<open>"pendingTxs" in blockDetails\<close>\<close>

fun pendingOf :: "AnyBlockDetails \<Rightarrow> Extrinsic list option" where
  "pendingOf (Basic d) = None"
| "pendingOf (Realtime r) = Some (pendingTxs r)"

definition secondText :: "env \<Rightarrow> BlockDetails \<Rightarrow> BlockDetails \<Rightarrow> string" where
  "secondText e d previous =
     (let elapsed = blockTime d - blockTime previous;
          seconds = padStart 5 (toFixed 1 (of_int (elapsed div 100) / 10))
      in if elapsed > 30000 then red e seconds
         else if elapsed > 14000 then yellow e seconds
         else seconds)"

definition weightText :: "env \<Rightarrow> BlockDetails \<Rightarrow> string" where
  "weightText e d =
     (let weightTxt = padStart 5 (toFixed 2 (weightPercentage d))
      in if weightPercentage d > 60 then red e weightTxt
         else if weightPercentage d > 30 then yellow e weightTxt
         else if weightPercentage d > 10 then green e weightTxt
         else weightTxt)"

definition txPoolText :: "env \<Rightarrow> Extrinsic list \<Rightarrow> string" where
  "txPoolText e pending =
     (let txPool = padStart 4 (natToString (length pending))
      in if length pending > 1000 then red e txPool
         else if length pending > 100 then yellow e txPool
         else txPool)"

definition poolIncText :: "env \<Rightarrow> Extrinsic list \<Rightarrow> Extrinsic list \<Rightarrow> string" where
  "poolIncText e pending previousPending =
     (let newPendingHashes = map xhash previousPending;
          txPoolDiff = length (filter (\<lambda>x. x \<notin> set newPendingHashes) (map xhash pending));
          poolInc = padStart 3 (natToString txPoolDiff)
      in if txPoolDiff > 80 then red e poolInc
         else if txPoolDiff > 30 then yellow e poolInc
         else poolInc)"

definition extText :: "env \<Rightarrow> BlockDetails \<Rightarrow> string" where
  "extText e d =
     (let n = length (extrinsics (block d));
          ext = padStart 3 (natToString n)
      in if n \<ge> 100 then red e ext
         else if n \<ge> 50 then yellow e ext
         else if n > 15 then green e ext
         else ext)"

definition isEthTransact :: "Extrinsic \<Rightarrow> bool" where
  "isEthTransact tx =
     (msection (xmethod tx) = ''ethereum'' \<and> mname (xmethod tx) = ''transact'')"

definition evmText :: "env \<Rightarrow> BlockDetails \<Rightarrow> string" where
  "evmText e d =
     (let ethTxs = length (filter isEthTransact (extrinsics (block d)));
          eths = padStart 3 (natToString ethTxs)
      in if ethTxs \<ge> 97 then red e eths
         else if ethTxs \<ge> 47 then yellow e eths
         else if ethTxs > 12 then green e eths
         else eths)"

text \<open>
  The \<^verbatim>\<open>filter\<close> before the fee sum: reading \<^verbatim>\<open>paysFee\<close> of a missing
  \<^verbatim>\<open>dispatchInfo\<close> is a TypeError.
\<close>

fun payingTxs :: "TxWithEventAndFee list \<Rightarrow> error + TxWithEventAndFee list" where
  "payingTxs [] = Inr []"
| "payingTxs (tx # txs) =
     (case dispatchInfo tx of
        None \<Rightarrow> Inl TypeError
      | Some d \<Rightarrow>
          (case payingTxs txs of
             Inl e \<Rightarrow> Inl e
           | Inr kept \<Rightarrow>
               Inr (if paysFee d = Yes \<and> dclass d \<noteq> Mandatory then tx # kept else kept)))"

text \<open>\<^verbatim>\<open>extrinsic.method.args[0]\<close>, whose members are read next.\<close>

definition payloadOf :: "Extrinsic \<Rightarrow> error + EthPayload" where
  "payloadOf ext =
     (case margs (xmethod ext) of [] \<Rightarrow> Inl TypeError | x # _ \<Rightarrow> Inr (argPayload x))"

text \<open>
  \<^verbatim>\<open>payload.asLegacy?.gasPrice || payload.asEip2930?.gasPrice || payload.asEip1559?.gasPrice || payload.gasPrice\<close>:
  a gas price is an object, truthy whatever its amount.
\<close>

definition payloadGasPrice :: "EthPayload \<Rightarrow> int option" where
  "payloadGasPrice p =
     (case Option.bind (asLegacy p) txGasPrice of
        Some g \<Rightarrow> Some g
      | None \<Rightarrow>
          (case Option.bind (asEip2930 p) txGasPrice of
             Some g \<Rightarrow> Some g
           | None \<Rightarrow>
               (case Option.bind (asEip1559 p) txGasPrice of
                  Some g \<Rightarrow> Some g
                | None \<Rightarrow> gasPrice p)))"

text \<open>One step of the fee \<^verbatim>\<open>reduce\<close>.\<close>

definition feeOfTx :: "TxWithEventAndFee \<Rightarrow> error + int" where
  "feeOfTx tx =
     (if msection (xmethod (extrinsic tx)) = ''ethereum'' then
        (case payloadOf (extrinsic tx) of
           Inl e \<Rightarrow> Inl e
         | Inr payload \<Rightarrow>
             (case payloadGasPrice payload of
                None \<Rightarrow> Inl TypeError
              | Some g \<Rightarrow>
                  (case dispatchInfo tx of
                     None \<Rightarrow> Inl TypeError
                   | Some d \<Rightarrow> Inr (tdiv (g * weight d) 25000))))
      else (case fee tx of None \<Rightarrow> Inl TypeError | Some f \<Rightarrow> Inr (partialFee f)))"

fun feesFrom :: "int \<Rightarrow> TxWithEventAndFee list \<Rightarrow> error + int" where
  "feesFrom p [] = Inr p"
| "feesFrom p (tx # txs) =
     (case feeOfTx tx of Inl e \<Rightarrow> Inl e | Inr f \<Rightarrow> feesFrom (p + f) txs)"

definition totalFees :: "BlockDetails \<Rightarrow> error + int" where
  "totalFees d =
     (case payingTxs (txWithEvents d) of Inl e \<Rightarrow> Inl e | Inr kept \<Rightarrow> feesFrom 0 kept)"

definition feesText :: "env \<Rightarrow> int \<Rightarrow> string" where
  "feesText e fees =
     (let feesTokens = (of_int (tdiv fees (10 ^ 15)) :: rat) / 1000;
          feesTokenTxt = padStart 5 (toFixed 3 feesTokens)
      in if feesTokens \<ge> 1 / 10 then red e feesTokenTxt
         else if feesTokens \<ge> 1 / 100 then yellow e feesTokenTxt
         else if feesTokens \<ge> 1 / 1000 then green e feesTokenTxt
         else feesTokenTxt)"

text \<open>\<^verbatim>\<open>shape?.value.toBigInt()\<close>: undefined without the shape, a TypeError without its value.\<close>

definition shapeValue :: "EthTx option \<Rightarrow> error + int option" where
  "shapeValue t =
     (case t of
        None \<Rightarrow> Inr None
      | Some tx \<Rightarrow> (case txValue tx of None \<Rightarrow> Inl TypeError | Some v \<Rightarrow> Inr (Some v)))"

text \<open>\<^verbatim>\<open>x || rest\<close> on an optional BigInt: \<^verbatim>\<open>undefined\<close> and \<^verbatim>\<open>0n\<close> are falsy.\<close>

definition orElse :: "error + int option \<Rightarrow> error + int \<Rightarrow> error + int" where
  "orElse x rest =
     (case x of
        Inl e \<Rightarrow> Inl e
      | Inr None \<Rightarrow> rest
      | Inr (Some v) \<Rightarrow> if v \<noteq> 0 then Inr v else rest)"

definition payloadValue :: "EthPayload \<Rightarrow> error + int" where
  "payloadValue p =
     orElse (shapeValue (asLegacy p))
       (orElse (shapeValue (asEip2930 p))
          (orElse (shapeValue (asEip1559 p))
             (case directValue p of None \<Rightarrow> Inl TypeError | Some v \<Rightarrow> Inr v)))"

text \<open>The \<^verbatim>\<open>reduce\<close> over the events of an extrinsic: the amounts of its balance transfers.\<close>

fun transfersFrom :: "int \<Rightarrow> Event list \<Rightarrow> error + int" where
  "transfersFrom totalAmount [] = Inr totalAmount"
| "transfersFrom totalAmount (ev # evs) =
     (if esection ev = ''balances'' \<and> emethod ev = ''Transfer'' then
        (if 2 < length (edata ev) then
           (case edata ev ! 2 of
              DInt v \<Rightarrow> transfersFrom (totalAmount + v) evs
            | DOther _ \<Rightarrow> Inl TypeError)
         else Inl TypeError)
      else transfersFrom totalAmount evs)"

definition transferredOfTx :: "TxWithEventAndFee \<Rightarrow> error + int" where
  "transferredOfTx tx =
     (if isEthTransact (extrinsic tx) then
        (case payloadOf (extrinsic tx) of
           Inl e \<Rightarrow> Inl e
         | Inr payload \<Rightarrow> payloadValue payload)
      else transfersFrom 0 (txEvents tx))"

definition totalTransferred :: "BlockDetails \<Rightarrow> error + int" where
  "totalTransferred d =
     (case collect (map transferredOfTx (txWithEvents d)) of
        Inl e \<Rightarrow> Inl e
      | Inr vs \<Rightarrow> Inr (foldl (+) 0 vs))"

definition coloredTransferred :: "env \<Rightarrow> int \<Rightarrow> string" where
  "coloredTransferred e transferred =
     (let transferredTokens = tdiv transferred (10 ^ 18);
          transferredText = padStart 5 (intToString transferredTokens)
      in if transferredTokens \<ge> 100 then red e transferredText
         else if transferredTokens \<ge> 50 then yellow e transferredText
         else if transferredTokens > 15 then green e transferredText
         else transferredText)"

definition shortAuthor :: "string \<Rightarrow> string" where
  "shortAuthor name =
     (if length name > 20 then take 7 name @ ''..'' @ drop (length name - 4) name
      else name)"

definition prefixPart :: "LogOptions option \<Rightarrow> string" where
  "prefixPart options =
     (case Option.bind options opt_prefix of
        None \<Rightarrow> []
      | Some p \<Rightarrow> if p \<noteq> [] then p @ '' '' else [])"

definition suffixPart :: "LogOptions option \<Rightarrow> string" where
  "suffixPart options =
     (case Option.bind options opt_suffix of
        None \<Rightarrow> []
      | Some p \<Rightarrow> if p \<noteq> [] then '' '' @ p else [])"

text \<open>\<^verbatim>\<open>[Pool:...(+...)]\<close>, when the snapshot is a realtime one.\<close>

definition poolPart :: "env \<Rightarrow> AnyBlockDetails \<Rightarrow> AnyBlockDetails option \<Rightarrow> string" where
  "poolPart e blockDetails previousBlockDetails =
     (case pendingOf blockDetails of
        None \<Rightarrow> []
      | Some pending \<Rightarrow>
          ''[Pool:'' @ txPoolText e pending
            @ (case Option.bind previousBlockDetails pendingOf of
                 None \<Rightarrow> []
               | Some previousPending \<Rightarrow>
                   ''(+'' @ poolIncText e pending previousPending @ '')'')
            @ '']'')"

definition secondsPart :: "env \<Rightarrow> AnyBlockDetails \<Rightarrow> AnyBlockDetails option \<Rightarrow> string" where
  "secondsPart e blockDetails previousBlockDetails =
     (case previousBlockDetails of
        None \<Rightarrow> []
      | Some previous \<Rightarrow> ''['' @ secondText e (base blockDetails) (base previous) @ ''s]'')"

subsection \<open>The line\<close>

definition generateBlockDetailsLog ::
  "env \<Rightarrow> AnyBlockDetails \<Rightarrow> LogOptions option \<Rightarrow> AnyBlockDetails option \<Rightarrow> error + string" where
  "generateBlockDetailsLog e blockDetails options previousBlockDetails =
     (let d = base blockDetails
      in case totalFees d of
           Inl err \<Rightarrow> Inl err
         | Inr fees \<Rightarrow>
             (case totalTransferred d of
                Inl err \<Rightarrow> Inl err
              | Inr transferred \<Rightarrow>
                  let authorId = shortAuthor (authorName d);
                      hashTxt = hash (header (block d));
                      time = localeTime e
                  in Inr (time @ '' '' @ prefixPart options @ ''#''
                          @ padEnd 7 (natToString (number (header (block d))))
                          @ '' ['' @ weightText e d @ ''%, '' @ feesText e fees @ '' fees, ''
                          @ extText e d @ '' Txs ('' @ evmText e d @ '' Eth)(<->''
                          @ coloredTransferred e transferred @ '')]''
                          @ poolPart e blockDetails previousBlockDetails
                          @ secondsPart e blockDetails previousBlockDetails
                          @ ''(hash: '' @ take 7 hashTxt @ ''..''
                          @ drop (length hashTxt - 4) hashTxt @ '')''
                          @ suffixPart options @ '' by '' @ authorId)))"

section \<open>Observers and a test double of the node\<close>

text \<open>The callbacks that record what they are given, as a test would.\<close>

definition recordBlock :: "BlockDetails \<Rightarrow> BlockDetails list \<Rightarrow> (error + unit) \<times> BlockDetails list" where
  "recordBlock d seen = (Inr (), seen @ [d])"

definition recordHead :: "RealtimeBlockDetails \<Rightarrow> (int \<times> int) list \<Rightarrow> (int \<times> int) list" where
  "recordHead r seen = seen @ [(blockTime r, elapsedMilliSecs r)]"

definition blockNumberOf :: "BlockDetails \<Rightarrow> int" where
  "blockNumberOf d = int (number (header (block d)))"

text \<open>\<open>containsText t sub\<close>: \<open>sub\<close> occurs in \<open>t\<close> as a run of consecutive characters.\<close>

fun containsText :: "string \<Rightarrow> string \<Rightarrow> bool" where
  "containsText [] sub = (sub = [])"
| "containsText (c # cs) sub = (take (length sub) (c # cs) = sub \<or> containsText cs sub)"

text \<open>
  The subscription on which every handler has ended when the next notification comes.
\<close>

definition serialSchedule :: "Header list \<Rightarrow> head_event list" where
  "serialSchedule hs = concat (map (\<lambda>h. [Deliver h, Complete (hash h)]) hs)"

text \<open>
  A node with five blocks, numbered 0 to 4, each with the author inherent and one
  transfer; block 1 is the head when a subscription starts, and the heads 1, 2 and 3
  are delivered, each after the handler of the one before has ended. Its clock does not
  move.
\<close>

definition noPayload :: EthPayload where
  "noPayload =
     \<lparr>asLegacy = None, asEip2930 = None, asEip1559 = None, gasPrice = None,
      directValue = None\<rparr>"

definition setAuthorExt :: Extrinsic where
  "setAuthorExt =
     \<lparr>xmethod = \<lparr>msection = ''authorInherent'', mname = ''setAuthor'',
                 margs = [\<lparr>argText = ''0xa1'', argPayload = noPayload\<rparr>]\<rparr>,
      xhash = ''0xe0'', xhex = ''0x00''\<rparr>"

definition transferExt :: Extrinsic where
  "transferExt =
     \<lparr>xmethod = \<lparr>msection = ''balances'', mname = ''transfer'', margs = []\<rparr>,
      xhash = ''0xe1'', xhex = ''0x01''\<rparr>"

definition mockHashes :: "string list" where
  "mockHashes = [''0xb0'', ''0xb1'', ''0xb2'', ''0xb3'', ''0xb4'']"

definition mockTimes :: "int list" where
  "mockTimes = [400, 1000, 4000, 9000, 12000]"

definition mockBlock :: "nat \<Rightarrow> Block" where
  "mockBlock n =
     \<lparr>header = \<lparr>number = n, hash = mockHashes ! n, parentHash = mockHashes ! (n - 1),
                digestLogs = []\<rparr>,
      extrinsics = [setAuthorExt, transferExt]\<rparr>"

definition mockIndex :: "string \<Rightarrow> nat option" where
  "mockIndex h = map_of (zip mockHashes [0, 1, 2, 3, 4]) h"

definition mockApi :: api where
  "mockApi =
     \<lparr>maxBlock = 500000000000,
      apiAt = (\<lambda>h. Inr ()),
      getBlock = (\<lambda>h. case h of
                        None \<Rightarrow> Inr (mockBlock 1)
                      | Some k \<Rightarrow> (case mockIndex k of
                                     None \<Rightarrow> Inl (RpcError ''unknown block'')
                                   | Some n \<Rightarrow> Inr (mockBlock n))),
      systemEvents = (\<lambda>h. Inr []),
      timestampNow = (\<lambda>h. case mockIndex h of
                            None \<Rightarrow> Inl (RpcError ''unknown block'')
                          | Some n \<Rightarrow> Inr (mockTimes ! n)),
      queryInfo = (\<lambda>x parent.
                     Inr \<lparr>feeWeight = 125000000, feeClass = Normal, partialFee = 1000000\<rparr>),
      identityOf = (\<lambda>acc. Inr (Some \<lparr>display = Raw ''alice''\<rparr>)),
      queryStorageAt = (\<lambda>keys atHash. Inr (map (\<lambda>k. None) keys)),
      mappingWithDeposit = (\<lambda>author. Inr (Some ''0xacc1'')),
      getBlockHash = (\<lambda>n. if 0 \<le> n \<and> n < 5 then Inr (mockHashes ! nat n)
                           else Inl (RpcError ''unknown block'')),
      pendingExtrinsics = Inr [],
      subscribeHeads =
        (\<lambda>finalized. Inr (serialSchedule (map (\<lambda>n. header (mockBlock n)) [1, 2, 3]))),
      latency = (\<lambda>q. 0),
      ethereumEncode = (\<lambda>t. t),
      xxhashAsHex = (\<lambda>t n. t),
      stringToHex = (\<lambda>t. t),
      dispatchOutcome =
        (\<lambda>evs. Some \<lparr>weight = 125000000, dclass = Normal, paysFee = Yes\<rparr>)\<rparr>"

text \<open>The same node with every fee quote failing, and with no author mapped.\<close>

definition feeFailingApi :: api where
  "feeFailingApi = mockApi\<lparr>queryInfo := (\<lambda>x parent. Inl (RpcError ''payment_queryInfo''))\<rparr>"

definition unmappedApi :: api where
  "unmappedApi = mockApi\<lparr>mappingWithDeposit := (\<lambda>author. Inr None)\<rparr>"

text \<open>
  The same node answering late for block 1: the three heads are delivered before any
  handler has its fetches, and those of block 1 come last.
\<close>

definition overlapApi :: api where
  "overlapApi =
     mockApi\<lparr>subscribeHeads :=
       (\<lambda>finalized.
          Inr [Deliver (header (mockBlock 1)), Deliver (header (mockBlock 2)),
               Deliver (header (mockBlock 3)),
               Complete ''0xb2'', Complete ''0xb3'', Complete ''0xb1''])\<rparr>"

definition emptyWorld :: world where
  "emptyWorld =
     \<lparr>identityCache = Map.empty, authorMappingCache = Map.empty, now = 0, calls = []\<rparr>"

text \<open>
  The synthetic snapshot of the formatter test: weight 45.00%, three extrinsics of which
  one ethereum transaction, fees of 0.005 token, 20 tokens transferred, the author
  \<^verbatim>\<open>abc...wxyz\<close>, and a pool of the given size whose transactions are numbered from 0.
\<close>

definition pendingTx :: "nat \<Rightarrow> Extrinsic" where
  "pendingTx i =
     \<lparr>xmethod = \<lparr>msection = ''balances'', mname = ''transfer'', margs = []\<rparr>,
      xhash = ''0x'' @ natToString i, xhex = ''0x00''\<rparr>"

definition timestampExt :: Extrinsic where
  "timestampExt =
     \<lparr>xmethod = \<lparr>msection = ''timestamp'', mname = ''set'', margs = []\<rparr>,
      xhash = ''0xe0'', xhex = ''0x00''\<rparr>"

definition ethereumExt :: Extrinsic where
  "ethereumExt =
     \<lparr>xmethod =
        \<lparr>msection = ''ethereum'', mname = ''transact'',
         margs = [\<lparr>argText = ''{}'',
                   argPayload =
                     noPayload\<lparr>asLegacy :=
                       Some \<lparr>txGasPrice = Some (10 ^ 9), txValue = Some (5 * 10 ^ 18)\<rparr>\<rparr>\<rparr>]\<rparr>,
      xhash = ''0xe2'', xhex = ''0x02''\<rparr>"

definition syntheticTxs :: "TxWithEventAndFee list" where
  "syntheticTxs =
     [\<lparr>extrinsic = timestampExt, txEvents = [],
       dispatchInfo = Some \<lparr>weight = 1000, dclass = Mandatory, paysFee = Yes\<rparr>,
       fee = None\<rparr>,
      \<lparr>extrinsic = transferExt,
       txEvents = [\<lparr>esection = ''balances'', emethod = ''Transfer'',
                    edata = [DOther ''0xf1'', DOther ''0xf2'', DInt (15 * 10 ^ 18)]\<rparr>],
       dispatchInfo = Some \<lparr>weight = 200000000, dclass = Normal, paysFee = Yes\<rparr>,
       fee = Some \<lparr>feeWeight = 200000000, feeClass = Normal, partialFee = 2 * 10 ^ 15\<rparr>\<rparr>,
      \<lparr>extrinsic = ethereumExt, txEvents = [],
       dispatchInfo = Some \<lparr>weight = 75 * 10 ^ 9, dclass = Normal, paysFee = Yes\<rparr>,
       fee = None\<rparr>]"

definition synthetic :: "nat \<Rightarrow> int \<Rightarrow> AnyBlockDetails" where
  "synthetic pool t =
     Realtime
       \<lparr>block = \<lparr>header = \<lparr>number = 100, hash = ''0xabcdef0123456789'',
                          parentHash = ''0x1234'', digestLogs = []\<rparr>,
                 extrinsics = [timestampExt, transferExt, ethereumExt]\<rparr>,
        authorName = ''abc...wxyz'', blockTime = t, records = [],
        txWithEvents = syntheticTxs, weightPercentage = 45,
        elapsedMilliSecs = 3000, pendingTxs = map pendingTx [0..<pool]\<rparr>"

definition plainEnv :: env where
  "plainEnv = \<lparr>clockNow = 0, tzOffset = 0, colors = False\<rparr>"

definition colorEnv :: env where
  "colorEnv = \<lparr>clockNow = 0, tzOffset = 0, colors = True\<rparr>"

definition laterEnv :: env where
  "laterEnv = \<lparr>clockNow = 1000, tzOffset = 0, colors = False\<rparr>"

text \<open>The world after a first resolution of an account, at time 1000.\<close>

definition firstResolved :: world where
  "firstResolved =
     snd (getAccountIdentity mockApi (Some ''0xacc1'') (emptyWorld\<lparr>now := 1000\<rparr>))"

text \<open>A batch of accounts with an absent one, and the world after its resolution.\<close>

definition batchAccounts :: "string option list" where
  "batchAccounts = [Some ''0xacc1'', None, Some ''0xacc2'']"

definition batchResolved :: world where
  "batchResolved =
     snd (getAccountIdentities mockApi (Some batchAccounts) None (emptyWorld\<lparr>now := 1000\<rparr>))"

text \<open>
  The world in which the author resolution of \<^verbatim>\<open>getBlockDetails\<close> starts: the queries
  for the API at the block, the block, its events, its timestamp and its fee quotes are
  logged.
\<close>

definition afterFetches :: "api \<Rightarrow> string \<Rightarrow> Block \<Rightarrow> world \<Rightarrow> world" where
  "afterFetches a h blk s =
     feeQueries a (parentHash (header blk)) (extrinsics blk)
       (rpc a (TimestampNow h) (rpc a (SystemEvents h) (rpc a (GetBlock (Some h)) (rpc a (ApiAt h) s))))"

text \<open>The sum of the dispatched weights of the extrinsics of a snapshot.\<close>

definition summedWeight :: "TxWithEventAndFee list \<Rightarrow> int" where
  "summedWeight txs = (\<Sum>tx\<leftarrow>txs. case dispatchInfo tx of None \<Rightarrow> 0 | Some i \<Rightarrow> weight i)"

text \<open>The test double serving a block without extrinsics, and failing the author mapping.\<close>

definition emptyBlockApi :: api where
  "emptyBlockApi =
     mockApi\<lparr>getBlock := (\<lambda>h. Inr \<lparr>header = \<lparr>number = 7, hash = ''0xb7'', parentHash = ''0xb6'', digestLogs = []\<rparr>, extrinsics = []\<rparr>),
             timestampNow := (\<lambda>h. Inr 20000)\<rparr>"

definition mappingFailingApi :: api where
  "mappingFailingApi = mockApi\<lparr>mappingWithDeposit := (\<lambda>author. Inl (RpcError ''authorMapping''))\<rparr>"

text \<open>The snapshots the test double gives for block 2 and for the empty block.\<close>

definition mockDetails :: BlockDetails where
  "mockDetails =
     \<lparr>block = mockBlock 2, authorName = ''alice'', blockTime = 4000, records = [],
      txWithEvents =
        [\<lparr>extrinsic = setAuthorExt, txEvents = [],
          dispatchInfo = Some \<lparr>weight = 125000000, dclass = Normal, paysFee = Yes\<rparr>,
          fee = Some \<lparr>feeWeight = 125000000, feeClass = Normal, partialFee = 1000000\<rparr>\<rparr>,
         \<lparr>extrinsic = transferExt, txEvents = [],
          dispatchInfo = Some \<lparr>weight = 125000000, dclass = Normal, paysFee = Yes\<rparr>,
          fee = Some \<lparr>feeWeight = 125000000, feeClass = Normal, partialFee = 1000000\<rparr>\<rparr>],
      weightPercentage = 1 / 20\<rparr>"

definition emptyDetails :: BlockDetails where
  "emptyDetails =
     \<lparr>block = \<lparr>header = \<lparr>number = 7, hash = ''0xb7'', parentHash = ''0xb6'', digestLogs = []\<rparr>,
               extrinsics = []\<rparr>,
      authorName = zeroAccount, blockTime = 20000, records = [], txWithEvents = [],
      weightPercentage = 0\<rparr>"

text \<open>
  A chain is consistent when the block stored under the hash of number \<open>n\<close> is numbered
  \<open>n\<close>.
\<close>

definition consistentChain :: "api \<Rightarrow> bool" where
  "consistentChain a =
     (\<forall>n h b. getBlockHash a n = Inr h \<and> getBlock a (Some h) = Inr b
        \<longrightarrow> int (number (header b)) = n)"

text \<open>
  The cache entries the test double leads to, the worlds that hold no others for its
  author and account, the snapshot of its block \<open>n\<close>, and a walk over blocks 1 to 3
  two at a time.
\<close>

definition aliceEntry :: IdentityEntry where
  "aliceEntry = \<lparr>identity = Some \<lparr>display = Raw ''alice''\<rparr>, lastUpdate = 0\<rparr>"

definition authorEntry :: MappingEntry where
  "authorEntry = \<lparr>account = Some ''0xacc1'', mappingLastUpdate = 0\<rparr>"

definition mockWorld :: "world \<Rightarrow> bool" where
  "mockWorld s =
     (now s = 0
      \<and> (case authorMappingCache s ''0xa1'' of None \<Rightarrow> True | Some e \<Rightarrow> e = authorEntry)
      \<and> (case identityCache s ''0xacc1'' of None \<Rightarrow> True | Some e \<Rightarrow> e = aliceEntry))"

definition mockSeen :: "nat \<Rightarrow> BlockDetails" where
  "mockSeen n = mockDetails\<lparr>block := mockBlock n, blockTime := mockTimes ! n\<rparr>"

definition walkOpts :: BlockRangeOption where
  "walkOpts = \<lparr>range_from = 1, range_to = 3, concurrency = Some 2\<rparr>"

text \<open>
  The differences of a list of timestamps: each one minus the one before it, the first
  minus the baseline.
\<close>

definition differences :: "int \<Rightarrow> int list \<Rightarrow> int list" where
  "differences baseline ts = map2 (-) ts (baseline # butlast ts)"

text \<open>
  Reading a trace and a subscription: the heads whose aggregation began, whose callback
  returned, whose handler failed, whose handler ended either way, and the heads that were
  delivered, each in order.
\<close>

fun begunHeads :: "handler_event list \<Rightarrow> string list" where
  "begunHeads [] = []"
| "begunHeads (Begin k # es) = k # begunHeads es"
| "begunHeads (e # es) = begunHeads es"

fun returnedHeads :: "handler_event list \<Rightarrow> string list" where
  "returnedHeads [] = []"
| "returnedHeads (Returned k # es) = k # returnedHeads es"
| "returnedHeads (e # es) = returnedHeads es"

fun failedHeads :: "handler_event list \<Rightarrow> string list" where
  "failedHeads [] = []"
| "failedHeads (Failed k # es) = k # failedHeads es"
| "failedHeads (e # es) = failedHeads es"

fun finishedHeads :: "handler_event list \<Rightarrow> string list" where
  "finishedHeads [] = []"
| "finishedHeads (Begin k # es) = finishedHeads es"
| "finishedHeads (Returned k # es) = k # finishedHeads es"
| "finishedHeads (Failed k # es) = k # finishedHeads es"

fun deliveredHeads :: "head_event list \<Rightarrow> string list" where
  "deliveredHeads [] = []"
| "deliveredHeads (Deliver h # evs) = hash h # deliveredHeads evs"
| "deliveredHeads (Complete k # evs) = deliveredHeads evs"

text \<open>
  A trace is serial when the handlers run strictly one at a time: each aggregation that
  begins is followed by the end of its own handler before another one begins.
\<close>

fun serialTrace :: "handler_event list \<Rightarrow> bool" where
  "serialTrace [] = True"
| "serialTrace [Begin k] = True"
| "serialTrace (Begin k # Returned k' # es) = (k = k' \<and> serialTrace es)"
| "serialTrace (Begin k # Failed k' # es) = (k = k' \<and> serialTrace es)"
| "serialTrace es = False"

text \<open>
  The trace a subscription gives when no handler fails, read off the subscription alone:
  an aggregation begins at each notification, and a callback returns whenever the
  fetches of a suspended handler are there. \<open>pending\<close> holds the hashes of the heads
  whose handlers are suspended.
\<close>

fun scheduleTrace :: "string list \<Rightarrow> head_event list \<Rightarrow> handler_event list" where
  "scheduleTrace pending [] = []"
| "scheduleTrace pending (Deliver h # evs) =
     Begin (hash h) # scheduleTrace (pending @ [hash h]) evs"
| "scheduleTrace pending (Complete k # evs) =
     (if k \<in> set pending then Returned k # scheduleTrace (remove1 k pending) evs
      else scheduleTrace pending evs)"

text \<open>An event with the failure of a handler read as the return of its callback.\<close>

fun succeeded :: "handler_event \<Rightarrow> handler_event" where
  "succeeded (Failed k) = Returned k"
| "succeeded e = e"

text \<open>The timestamp the node gives for the block with a hash (0 when it gives none).\<close>

definition timestampOf :: "api \<Rightarrow> string \<Rightarrow> int" where
  "timestampOf a k = (case timestampNow a k of Inl e \<Rightarrow> 0 | Inr t \<Rightarrow> t)"

text \<open>
  What holds of a follower with the recording callback after any events: the elapsed
  times are the differences of the recorded timestamps from the baseline, the stored
  time is the last one recorded, the recorded timestamps are those of the heads whose
  callback returned, and a handler only fails when a fetch of it can fail.
\<close>

definition followerInv :: "api \<Rightarrow> int \<Rightarrow> (int \<times> int) list follower \<Rightarrow> bool" where
  "followerInv a baseline f =
     (map snd (observer f) = differences baseline (map fst (observer f))
      \<and> latestBlockTime f = last (baseline # map fst (observer f))
      \<and> map fst (observer f) = map (timestampOf a) (returnedHeads (trace f))
      \<and> list_all (\<lambda>k. (\<exists>w. isl (fst (getBlockDetails a k w))) \<or> isl (pendingExtrinsics a))
           (failedHeads (trace f)))"

text \<open>
  The synthetic snapshot with a pool of 50, its predecessor 3000 ms earlier with a pool
  of 40, and the lines they are rendered to without and with colours at midnight.
\<close>

definition plainLine :: string where
  "plainLine =
     ''00:00:00 #100     [45.00%, 0.005 fees,   3 Txs (  1 Eth)(<->   20)][Pool:  50(+ 10)][  3.0s](hash: 0xabcde..6789) by abc...wxyz''"

definition colorLine :: string where
  "colorLine =
     ''00:00:00 #100     ['' @ [CHR 0x1B] @ ''[33m45.00'' @ [CHR 0x1B] @ ''[39m%, ''
       @ [CHR 0x1B] @ ''[32m0.005'' @ [CHR 0x1B] @ ''[39m fees,   3 Txs (  1 Eth)(<->''
       @ [CHR 0x1B] @ ''[32m   20'' @ [CHR 0x1B]
       @ ''[39m)][Pool:  50(+ 10)][  3.0s](hash: 0xabcde..6789) by abc...wxyz''"

definition syntheticNow :: AnyBlockDetails where
  "syntheticNow = synthetic 50 1700000003000"

definition syntheticBefore :: AnyBlockDetails where
  "syntheticBefore = synthetic 40 1700000000000"

text \<open>
  A snapshot whose only record has no dispatch information, and the clock one day after
  \<open>plainEnv\<close>.
\<close>

definition brokenSnapshot :: AnyBlockDetails where
  "brokenSnapshot =
     Basic \<lparr>block = mockBlock 2, authorName = ''alice'', blockTime = 4000, records = [],
            txWithEvents =
              [\<lparr>extrinsic = transferExt, txEvents = [], dispatchInfo = None, fee = None\<rparr>],
            weightPercentage = 0\<rparr>"

definition nextDayEnv :: env where
  "nextDayEnv = \<lparr>clockNow = 86400000, tzOffset = 0, colors = False\<rparr>"

section \<open>Basic facts\<close>

lemma truthy_simps [simp]:
  "truthy None = False" "truthy (Some t) = (t \<noteq> [])"
  by (simp_all add: truthy_def)

lemma rpc_fields [simp]:
  "identityCache (rpc a q s) = identityCache s"
  "authorMappingCache (rpc a q s) = authorMappingCache s"
  "now (rpc a q s) = now s + latency a q"
  "calls (rpc a q s) = calls s @ [q]"
  by (simp_all add: rpc_def)

lemma missingAccountsOf_single:
  "k \<noteq> [] \<Longrightarrow> missingAccountsOf s [Some k] = (if identityMissing s k then [k] else [])"
  by (simp add: missingAccountsOf_def List.map_filter_def)

section \<open>Identity resolver: empty accounts, freshness, unmapped authors\<close>

text \<open>
  C10. An account that is absent (null or undefined) or the empty string resolves to the
  empty string at once: the world, so the identity cache and the log of queries, is
  returned as it was. The batched resolution of an absent or empty list of accounts
  returns the empty list, the world as it was.
\<close>

theorem empty_account_resolves_without_query:
  "getAccountIdentity a None s = (Inr [], s)
   \<and> getAccountIdentity a (Some []) s = (Inr [], s)
   \<and> getAccountIdentities a None atHash s = (Inr [], s)
   \<and> getAccountIdentities a (Some []) atHash s = (Inr [], s)"
  by (simp add: getAccountIdentity_def getAccountIdentities_def)

lemma getAccountIdentity_cached:
  assumes "identityCache s k = Some e" and "k \<noteq> []"
    and "\<not> lastUpdate e < now s - 3600 * 1000"
  shows "getAccountIdentity a (Some k) s
           = (Inr (case identity e of None \<Rightarrow> k | Some r \<Rightarrow> displayText r), s)"
  using assms
  by (simp add: getAccountIdentity_def identityMissing_def split: option.splits)

lemma getAccountIdentity_stale:
  assumes "identityCache s k = Some e" and "k \<noteq> []"
    and "lastUpdate e < now s - 3600 * 1000"
  shows "calls (snd (getAccountIdentity a (Some k) s)) = calls s @ [IdentityOf k]"
  using assms
  by (simp add: getAccountIdentity_def identityMissing_def Let_def split: option.splits sum.splits)

lemma getAccountIdentities_fresh:
  assumes "identityCache s k = Some e" and "k \<noteq> []"
    and "\<not> lastUpdate e < now s - 3600 * 1000"
  shows "snd (getAccountIdentities a (Some [Some k]) atHash s) = s"
  using assms
  by (simp add: getAccountIdentities_def missingAccountsOf_single identityMissing_def)

lemma getAccountIdentities_stale:
  assumes "identityCache s k = Some e" and "k \<noteq> []"
    and "lastUpdate e < now s - 3600 * 1000"
  shows "calls (snd (getAccountIdentities a (Some [Some k]) atHash s))
           = calls s @ [QueryStorageAt [getIdentityKey a k] atHash]"
  using assms
  by (simp add: getAccountIdentities_def missingAccountsOf_single identityMissing_def Let_def
      split: sum.splits)

lemma missingAccountsOf_member:
  "k \<in> set (missingAccountsOf w accs) \<longleftrightarrow> Some k \<in> set accs \<and> k \<noteq> [] \<and> identityMissing w k"
proof (induction accs)
  case Nil
  show ?case by (simp add: missingAccountsOf_def)
next
  case (Cons acc accs)
  have step: "missingAccountsOf w (acc # accs)
                = (if truthy acc \<and> identityMissing w (the acc)
                   then the acc # missingAccountsOf w accs else missingAccountsOf w accs)"
    by (cases acc) (simp_all add: missingAccountsOf_def)
  from Cons.IH show ?case
    unfolding step by (cases acc) auto
qed

text \<open>What an entry of the cache means for the next resolution, whenever it comes.\<close>

lemma entry_next_resolution:
  assumes "identityCache w k = Some e" and "k \<noteq> []"
  shows "(\<forall>t. t - lastUpdate e \<le> 3600 * 1000 \<longrightarrow>
            getAccountIdentity a (Some k) (w\<lparr>now := t\<rparr>)
              = (Inr (case identity e of None \<Rightarrow> k | Some r \<Rightarrow> displayText r), w\<lparr>now := t\<rparr>)
          \<and> snd (getAccountIdentities a (Some [Some k]) atHash (w\<lparr>now := t\<rparr>)) = w\<lparr>now := t\<rparr>
          \<and> (\<forall>batch. k \<notin> set (missingAccountsOf (w\<lparr>now := t\<rparr>) batch)))
       \<and> (\<forall>t. t - lastUpdate e > 3600 * 1000 \<longrightarrow>
            calls (snd (getAccountIdentity a (Some k) (w\<lparr>now := t\<rparr>))) = calls w @ [IdentityOf k]
          \<and> calls (snd (getAccountIdentities a (Some [Some k]) atHash (w\<lparr>now := t\<rparr>)))
              = calls w @ [QueryStorageAt [getIdentityKey a k] atHash]
          \<and> (\<forall>batch. Some k \<in> set batch \<longrightarrow> k \<in> set (missingAccountsOf (w\<lparr>now := t\<rparr>) batch)))"
proof (intro conjI allI impI)
  fix t :: int
  let ?w = "w\<lparr>now := t\<rparr>"
  have c: "identityCache ?w k = Some e" using assms(1) by simp
  {
    assume "t - lastUpdate e \<le> 3600 * 1000"
    then have nf: "\<not> lastUpdate e < now ?w - 3600 * 1000" by simp
    show "getAccountIdentity a (Some k) ?w
            = (Inr (case identity e of None \<Rightarrow> k | Some r \<Rightarrow> displayText r), ?w)"
      by (rule getAccountIdentity_cached [OF c assms(2) nf])
    show "snd (getAccountIdentities a (Some [Some k]) atHash ?w) = ?w"
      by (rule getAccountIdentities_fresh [OF c assms(2) nf])
    show "k \<notin> set (missingAccountsOf ?w batch)" for batch
      using c nf by (simp add: missingAccountsOf_member identityMissing_def)
  }
  {
    assume "t - lastUpdate e > 3600 * 1000"
    then have st: "lastUpdate e < now ?w - 3600 * 1000" by simp
    show "calls (snd (getAccountIdentity a (Some k) ?w)) = calls w @ [IdentityOf k]"
      using getAccountIdentity_stale [OF c assms(2) st] by simp
    show "calls (snd (getAccountIdentities a (Some [Some k]) atHash ?w))
            = calls w @ [QueryStorageAt [getIdentityKey a k] atHash]"
      using getAccountIdentities_stale [OF c assms(2) st] by simp
    show "k \<in> set (missingAccountsOf ?w batch)" if "Some k \<in> set batch" for batch
      using c st that assms(2) by (simp add: missingAccountsOf_member identityMissing_def)
  }
qed

text \<open>A resolution that succeeds leaves an entry for the account.\<close>

lemma single_leaves_entry:
  assumes "getAccountIdentity a (Some k) s = (Inr n, s1)" and "k \<noteq> []"
  shows "\<exists>e. identityCache s1 k = Some e
     \<and> n = (case identity e of None \<Rightarrow> k | Some r \<Rightarrow> displayText r)
     \<and> (identityMissing s k \<longrightarrow> lastUpdate e = now s1)"
  using assms
  by (auto simp: getAccountIdentity_def Let_def split: if_splits sum.splits option.splits)

lemma storeIdentities_keeps:
  "\<exists>e. c k = Some e \<and> lastUpdate e = t \<Longrightarrow>
     \<exists>e. storeIdentities missing t ids i c k = Some e \<and> lastUpdate e = t"
  by (induction ids arbitrary: i c) auto

lemma storeIdentities_stores:
  "i \<le> j \<Longrightarrow> j < i + length ids \<Longrightarrow> j < length missing \<Longrightarrow>
     \<exists>e. storeIdentities missing t ids i c (missing ! j) = Some e \<and> lastUpdate e = t"
proof (induction ids arbitrary: i c)
  case Nil
  then show ?case by simp
next
  case (Cons d ds)
  show ?case
  proof (cases "j = i")
    case True
    with Cons.prems show ?thesis
      by (simp add: storeIdentities_keeps)
  next
    case False
    with Cons.prems have "Suc i \<le> j" "j < Suc i + length ds" by simp_all
    from Cons.IH [OF this Cons.prems(3)] show ?thesis by simp
  qed
qed

lemma cachedDisplay_entry:
  "cachedDisplay w (Some k) = Inr x \<Longrightarrow> k \<noteq> [] \<Longrightarrow> \<exists>e. identityCache w k = Some e"
  by (auto simp: cachedDisplay_def split: option.splits)

lemma collect_all_Inr:
  "collect rs = Inr xs \<Longrightarrow> r \<in> set rs \<Longrightarrow> \<exists>x. r = Inr x"
  by (induction rs arbitrary: xs) (auto split: sum.splits)

lemma batch_leaves_entry:
  assumes "getAccountIdentities a (Some accs) atHash s = (Inr names, s2)"
    and "Some k \<in> set accs" and "k \<noteq> []"
  shows "\<exists>e. identityCache s2 k = Some e"
proof -
  from assms(2) have ne: "accs \<noteq> []" by auto
  from assms(1) ne have "collect (map (cachedDisplay s2) accs) = Inr names"
    by (auto simp: getAccountIdentities_def Let_def split: if_splits sum.splits prod.splits)
  moreover have "cachedDisplay s2 (Some k) \<in> set (map (cachedDisplay s2) accs)"
    using assms(2) by auto
  ultimately obtain x where "cachedDisplay s2 (Some k) = Inr x"
    using collect_all_Inr by blast
  from cachedDisplay_entry [OF this assms(3)] show ?thesis .
qed

lemma batch_refreshes:
  assumes "getAccountIdentities a (Some accs) atHash s = (Inr names, s2)"
    and "k \<in> set (missingAccountsOf s accs)"
    and "queryStorageAt a (map (getIdentityKey a) (missingAccountsOf s accs)) atHash = Inr ids"
    and "length ids = length (missingAccountsOf s accs)"
  shows "\<exists>e. identityCache s2 k = Some e \<and> lastUpdate e = now s2"
proof -
  let ?m = "missingAccountsOf s accs"
  let ?q = "QueryStorageAt (map (getIdentityKey a) ?m) atHash"
  from assms(2) have me: "?m \<noteq> []" by auto
  from assms(2) have ne: "accs \<noteq> []"
    by (cases accs) (simp_all add: missingAccountsOf_def List.map_filter_def)
  from assms(1) assms(3) ne me
  have s2: "s2 = (rpc a ?q s)\<lparr>identityCache :=
               storeIdentities ?m (now s + latency a ?q) ids 0 (identityCache s)\<rparr>"
    by (auto simp: getAccountIdentities_def Let_def split: if_splits sum.splits prod.splits)
  from assms(2) obtain j where j: "j < length ?m" "?m ! j = k"
    by (auto simp: in_set_conv_nth)
  from storeIdentities_stores [of 0 j ids ?m "now s + latency a ?q" "identityCache s"] j assms(4)
  show ?thesis by (simp add: s2)
qed

lemma batch_without_missing:
  assumes "\<forall>acc\<in>set accs. truthy acc \<longrightarrow> \<not> identityMissing w (the acc)"
  shows "snd (getAccountIdentities a (Some accs) atHash w) = w"
proof -
  from assms have "missingAccountsOf w accs = []"
    by (auto simp: missingAccountsOf_def List.map_filter_def filter_empty_conv)
  then show ?thesis
    by (simp add: getAccountIdentities_def Let_def)
qed

text \<open>
  C7. A resolution of an account that succeeds leaves an entry for the account in the
  identity cache, and the entry carries the time of the query when the account had no
  fresh entry before (in a batch: when the node answers one identity for each key it is
  asked). From then on, whenever the account is resolved again, alone or in a batch of
  its own: while the entry is at most one hour old, the resolution leaves the world as
  it is, so it sends no query, and gives the same name; once the entry is more than one
  hour old, the resolution sends exactly one new query. In a batch with other accounts,
  the account is not among those asked for while its entry is at most one hour old, and
  is among them afterwards. A batch all of whose accounts have a fresh entry sends no
  query. At exactly one hour the code does not query.
\<close>

theorem identity_cache_freshness:
  assumes "k \<noteq> []"
  shows "(getAccountIdentity a (Some k) s = (Inr n, s1) \<longrightarrow>
           (\<exists>e. identityCache s1 k = Some e
              \<and> (identityMissing s k \<longrightarrow> lastUpdate e = now s1)
              \<and> (\<forall>t. t - lastUpdate e \<le> 3600 * 1000 \<longrightarrow>
                    getAccountIdentity a (Some k) (s1\<lparr>now := t\<rparr>) = (Inr n, s1\<lparr>now := t\<rparr>)
                  \<and> snd (getAccountIdentities a (Some [Some k]) atHash (s1\<lparr>now := t\<rparr>))
                      = s1\<lparr>now := t\<rparr>
                  \<and> (\<forall>batch. k \<notin> set (missingAccountsOf (s1\<lparr>now := t\<rparr>) batch)))
              \<and> (\<forall>t. t - lastUpdate e > 3600 * 1000 \<longrightarrow>
                    calls (snd (getAccountIdentity a (Some k) (s1\<lparr>now := t\<rparr>)))
                      = calls s1 @ [IdentityOf k]
                  \<and> calls (snd (getAccountIdentities a (Some [Some k]) atHash (s1\<lparr>now := t\<rparr>)))
                      = calls s1 @ [QueryStorageAt [getIdentityKey a k] atHash]
                  \<and> (\<forall>batch. Some k \<in> set batch \<longrightarrow>
                        k \<in> set (missingAccountsOf (s1\<lparr>now := t\<rparr>) batch)))))
       \<and> (getAccountIdentities a (Some accs) atHash s = (Inr names, s2) \<and> Some k \<in> set accs \<longrightarrow>
           (\<exists>e. identityCache s2 k = Some e
              \<and> (k \<in> set (missingAccountsOf s accs)
                   \<and> (\<exists>ids. queryStorageAt a (map (getIdentityKey a) (missingAccountsOf s accs))
                               atHash = Inr ids
                            \<and> length ids = length (missingAccountsOf s accs))
                   \<longrightarrow> lastUpdate e = now s2)
              \<and> (\<forall>t. t - lastUpdate e \<le> 3600 * 1000 \<longrightarrow>
                    snd (getAccountIdentity a (Some k) (s2\<lparr>now := t\<rparr>)) = s2\<lparr>now := t\<rparr>
                  \<and> snd (getAccountIdentities a (Some [Some k]) atHash (s2\<lparr>now := t\<rparr>))
                      = s2\<lparr>now := t\<rparr>
                  \<and> (\<forall>batch. k \<notin> set (missingAccountsOf (s2\<lparr>now := t\<rparr>) batch)))
              \<and> (\<forall>t. t - lastUpdate e > 3600 * 1000 \<longrightarrow>
                    calls (snd (getAccountIdentity a (Some k) (s2\<lparr>now := t\<rparr>)))
                      = calls s2 @ [IdentityOf k]
                  \<and> calls (snd (getAccountIdentities a (Some [Some k]) atHash (s2\<lparr>now := t\<rparr>)))
                      = calls s2 @ [QueryStorageAt [getIdentityKey a k] atHash]
                  \<and> (\<forall>batch. Some k \<in> set batch \<longrightarrow>
                        k \<in> set (missingAccountsOf (s2\<lparr>now := t\<rparr>) batch)))))
       \<and> ((\<forall>acc\<in>set accs. truthy acc \<longrightarrow> \<not> identityMissing w (the acc)) \<longrightarrow>
            snd (getAccountIdentities a (Some accs) atHash w) = w)"
proof (intro conjI impI)
  assume r: "getAccountIdentity a (Some k) s = (Inr n, s1)"
  from single_leaves_entry [OF r assms] obtain e where
    e: "identityCache s1 k = Some e"
    and n: "n = (case identity e of None \<Rightarrow> k | Some r \<Rightarrow> displayText r)"
    and u: "identityMissing s k \<longrightarrow> lastUpdate e = now s1"
    by blast
  from entry_next_resolution [OF e assms, of a atHash] e n u
  show "\<exists>e. identityCache s1 k = Some e
          \<and> (identityMissing s k \<longrightarrow> lastUpdate e = now s1)
          \<and> (\<forall>t. t - lastUpdate e \<le> 3600 * 1000 \<longrightarrow>
                getAccountIdentity a (Some k) (s1\<lparr>now := t\<rparr>) = (Inr n, s1\<lparr>now := t\<rparr>)
              \<and> snd (getAccountIdentities a (Some [Some k]) atHash (s1\<lparr>now := t\<rparr>))
                  = s1\<lparr>now := t\<rparr>
              \<and> (\<forall>batch. k \<notin> set (missingAccountsOf (s1\<lparr>now := t\<rparr>) batch)))
          \<and> (\<forall>t. t - lastUpdate e > 3600 * 1000 \<longrightarrow>
                calls (snd (getAccountIdentity a (Some k) (s1\<lparr>now := t\<rparr>)))
                  = calls s1 @ [IdentityOf k]
              \<and> calls (snd (getAccountIdentities a (Some [Some k]) atHash (s1\<lparr>now := t\<rparr>)))
                  = calls s1 @ [QueryStorageAt [getIdentityKey a k] atHash]
              \<and> (\<forall>batch. Some k \<in> set batch \<longrightarrow>
                    k \<in> set (missingAccountsOf (s1\<lparr>now := t\<rparr>) batch)))"
    by (intro exI [of _ e]) simp
next
  assume b: "getAccountIdentities a (Some accs) atHash s = (Inr names, s2) \<and> Some k \<in> set accs"
  from batch_leaves_entry [OF _ _ assms] b obtain e where e: "identityCache s2 k = Some e"
    by blast
  have u: "k \<in> set (missingAccountsOf s accs)
             \<and> (\<exists>ids. queryStorageAt a (map (getIdentityKey a) (missingAccountsOf s accs))
                         atHash = Inr ids
                      \<and> length ids = length (missingAccountsOf s accs))
           \<longrightarrow> lastUpdate e = now s2"
    using batch_refreshes [of a accs atHash s names s2 k] b e by auto
  from entry_next_resolution [OF e assms, of a atHash] e u
  show "\<exists>e. identityCache s2 k = Some e
          \<and> (k \<in> set (missingAccountsOf s accs)
               \<and> (\<exists>ids. queryStorageAt a (map (getIdentityKey a) (missingAccountsOf s accs))
                           atHash = Inr ids
                        \<and> length ids = length (missingAccountsOf s accs))
               \<longrightarrow> lastUpdate e = now s2)
          \<and> (\<forall>t. t - lastUpdate e \<le> 3600 * 1000 \<longrightarrow>
                snd (getAccountIdentity a (Some k) (s2\<lparr>now := t\<rparr>)) = s2\<lparr>now := t\<rparr>
              \<and> snd (getAccountIdentities a (Some [Some k]) atHash (s2\<lparr>now := t\<rparr>))
                  = s2\<lparr>now := t\<rparr>
              \<and> (\<forall>batch. k \<notin> set (missingAccountsOf (s2\<lparr>now := t\<rparr>) batch)))
          \<and> (\<forall>t. t - lastUpdate e > 3600 * 1000 \<longrightarrow>
                calls (snd (getAccountIdentity a (Some k) (s2\<lparr>now := t\<rparr>)))
                  = calls s2 @ [IdentityOf k]
              \<and> calls (snd (getAccountIdentities a (Some [Some k]) atHash (s2\<lparr>now := t\<rparr>)))
                  = calls s2 @ [QueryStorageAt [getIdentityKey a k] atHash]
              \<and> (\<forall>batch. Some k \<in> set batch \<longrightarrow>
                    k \<in> set (missingAccountsOf (s2\<lparr>now := t\<rparr>) batch)))"
    by (intro exI [of _ e]) simp
next
  assume "\<forall>acc\<in>set accs. truthy acc \<longrightarrow> \<not> identityMissing w (the acc)"
  then show "snd (getAccountIdentities a (Some accs) atHash w) = w"
    by (rule batch_without_missing)
qed

text \<open>A first resolution, a batch, and the resolutions that follow them.\<close>

lemma first_run:
  "getAccountIdentity mockApi (Some ''0xacc1'') (emptyWorld\<lparr>now := 1000\<rparr>)
     = (Inr ''alice'', firstResolved)"
  by (simp add: firstResolved_def getAccountIdentity_def identityMissing_def emptyWorld_def
      mockApi_def rpc_def displayText_def Let_def)

lemma first_world:
  "calls firstResolved = [IdentityOf ''0xacc1'']" "now firstResolved = 1000"
  "identityMissing (emptyWorld\<lparr>now := 1000\<rparr>) ''0xacc1''"
  by (simp_all add: firstResolved_def getAccountIdentity_def identityMissing_def emptyWorld_def
      mockApi_def rpc_def displayText_def Let_def)

lemma mock_resolver_fields:
  "queryStorageAt mockApi keys h = Inr (map (\<lambda>k. None) keys)"
  "latency mockApi q = 0"
  by (simp_all add: mockApi_def)

lemma start_world:
  "identityCache (emptyWorld\<lparr>now := 1000\<rparr>) = Map.empty"
  "calls (emptyWorld\<lparr>now := 1000\<rparr>) = []"
  "now (emptyWorld\<lparr>now := 1000\<rparr>) = 1000"
  by (simp_all add: emptyWorld_def)

lemma batch_missing:
  "missingAccountsOf (emptyWorld\<lparr>now := 1000\<rparr>) [Some ''0xacc1'', None, Some ''0xacc2'']
     = [''0xacc1'', ''0xacc2'']"
  by (simp add: missingAccountsOf_def List.map_filter_def identityMissing_def start_world)

lemma batch_world:
  "calls batchResolved
     = [QueryStorageAt [getIdentityKey mockApi ''0xacc1'', getIdentityKey mockApi ''0xacc2''] None]"
  "now batchResolved = 1000"
  "identityCache batchResolved ''0xacc1'' = Some \<lparr>identity = None, lastUpdate = 1000\<rparr>"
  "identityCache batchResolved ''0xacc2'' = Some \<lparr>identity = None, lastUpdate = 1000\<rparr>"
  by (simp_all add: batchResolved_def batchAccounts_def getAccountIdentities_def batch_missing
      Let_def mock_resolver_fields start_world)

lemma batch_run:
  "getAccountIdentities mockApi (Some batchAccounts) None (emptyWorld\<lparr>now := 1000\<rparr>)
     = (Inr [Some ''0xacc1'', None, Some ''0xacc2''], batchResolved)"
proof -
  have "fst (getAccountIdentities mockApi (Some batchAccounts) None (emptyWorld\<lparr>now := 1000\<rparr>))
          = Inr [Some ''0xacc1'', None, Some ''0xacc2'']"
    by (simp add: batchAccounts_def getAccountIdentities_def batch_missing Let_def
        mock_resolver_fields start_world cachedDisplay_def)
  then show ?thesis
    by (simp add: batchResolved_def prod_eq_iff)
qed

theorem identity_cache_freshness_witness:
  "getAccountIdentity mockApi (Some ''0xacc1'') (emptyWorld\<lparr>now := 1000\<rparr>)
     = (Inr ''alice'', firstResolved)
   \<and> calls firstResolved = [IdentityOf ''0xacc1'']
   \<and> getAccountIdentity mockApi (Some ''0xacc1'') (firstResolved\<lparr>now := 3601000\<rparr>)
       = (Inr ''alice'', firstResolved\<lparr>now := 3601000\<rparr>)
   \<and> calls (snd (getAccountIdentity mockApi (Some ''0xacc1'') (firstResolved\<lparr>now := 3601001\<rparr>)))
       = [IdentityOf ''0xacc1'', IdentityOf ''0xacc1'']
   \<and> getAccountIdentities mockApi (Some batchAccounts) None (emptyWorld\<lparr>now := 1000\<rparr>)
       = (Inr [Some ''0xacc1'', None, Some ''0xacc2''], batchResolved)
   \<and> calls batchResolved
       = [QueryStorageAt [getIdentityKey mockApi ''0xacc1'', getIdentityKey mockApi ''0xacc2''] None]
   \<and> snd (getAccountIdentities mockApi (Some batchAccounts) None (batchResolved\<lparr>now := 3601000\<rparr>))
       = batchResolved\<lparr>now := 3601000\<rparr>
   \<and> snd (getAccountIdentities mockApi (Some [Some ''0xacc2'']) None
             (batchResolved\<lparr>now := 3601000\<rparr>))
       = batchResolved\<lparr>now := 3601000\<rparr>
   \<and> calls (snd (getAccountIdentities mockApi (Some [Some ''0xacc2'']) None
                    (batchResolved\<lparr>now := 3601001\<rparr>)))
       = calls batchResolved @ [QueryStorageAt [getIdentityKey mockApi ''0xacc2''] None]"
proof -
  have k1: "''0xacc1'' \<noteq> []" and k2: "''0xacc2'' \<noteq> []" by simp_all
  note t1 = identity_cache_freshness [OF k1, where a = mockApi
      and s = "emptyWorld\<lparr>now := 1000\<rparr>" and n = "''alice''" and ?s1.0 = firstResolved
      and atHash = None]
  from t1 [THEN conjunct1, THEN mp, OF first_run] obtain e where
    c1: "identityCache firstResolved ''0xacc1'' = Some e"
    and u1: "identityMissing (emptyWorld\<lparr>now := 1000\<rparr>) ''0xacc1'' \<longrightarrow> lastUpdate e = now firstResolved"
    and f1: "\<forall>t. t - lastUpdate e \<le> 3600 * 1000 \<longrightarrow>
               getAccountIdentity mockApi (Some ''0xacc1'') (firstResolved\<lparr>now := t\<rparr>)
                 = (Inr ''alice'', firstResolved\<lparr>now := t\<rparr>)
             \<and> snd (getAccountIdentities mockApi (Some [Some ''0xacc1'']) None
                      (firstResolved\<lparr>now := t\<rparr>))
                 = firstResolved\<lparr>now := t\<rparr>
             \<and> (\<forall>batch. ''0xacc1'' \<notin> set (missingAccountsOf (firstResolved\<lparr>now := t\<rparr>) batch))"
    and g1: "\<forall>t. t - lastUpdate e > 3600 * 1000 \<longrightarrow>
               calls (snd (getAccountIdentity mockApi (Some ''0xacc1'') (firstResolved\<lparr>now := t\<rparr>)))
                 = calls firstResolved @ [IdentityOf ''0xacc1'']
             \<and> calls (snd (getAccountIdentities mockApi (Some [Some ''0xacc1'']) None
                             (firstResolved\<lparr>now := t\<rparr>)))
                 = calls firstResolved @ [QueryStorageAt [getIdentityKey mockApi ''0xacc1''] None]
             \<and> (\<forall>batch. Some ''0xacc1'' \<in> set batch \<longrightarrow>
                   ''0xacc1'' \<in> set (missingAccountsOf (firstResolved\<lparr>now := t\<rparr>) batch))"
    by (elim exE conjE) (rule that)
  from u1 first_world have l1: "lastUpdate e = 1000" by simp
  have a: "getAccountIdentity mockApi (Some ''0xacc1'') (firstResolved\<lparr>now := 3601000\<rparr>)
             = (Inr ''alice'', firstResolved\<lparr>now := 3601000\<rparr>)"
    using f1 l1 by simp
  have b: "calls (snd (getAccountIdentity mockApi (Some ''0xacc1'') (firstResolved\<lparr>now := 3601001\<rparr>)))
             = [IdentityOf ''0xacc1'', IdentityOf ''0xacc1'']"
    using g1 l1 first_world by simp
  note t2 = identity_cache_freshness [OF k2, where a = mockApi
      and s = "emptyWorld\<lparr>now := 1000\<rparr>" and accs = batchAccounts and atHash = None
      and names = "[Some ''0xacc1'', None, Some ''0xacc2'']" and ?s2.0 = batchResolved
      and w = "batchResolved\<lparr>now := 3601000\<rparr>"]
  have mem: "Some ''0xacc2'' \<in> set batchAccounts" by (simp add: batchAccounts_def)
  have q: "\<exists>ids. queryStorageAt mockApi
                    (map (getIdentityKey mockApi)
                       (missingAccountsOf (emptyWorld\<lparr>now := 1000\<rparr>) batchAccounts)) None = Inr ids
                 \<and> length ids = length (missingAccountsOf (emptyWorld\<lparr>now := 1000\<rparr>) batchAccounts)"
    by (simp add: batchAccounts_def batch_missing mock_resolver_fields)
  from t2 [THEN conjunct2, THEN conjunct1, THEN mp, OF conjI [OF batch_run mem]]
  obtain e2 where
    c2: "identityCache batchResolved ''0xacc2'' = Some e2"
    and u2: "''0xacc2'' \<in> set (missingAccountsOf (emptyWorld\<lparr>now := 1000\<rparr>) batchAccounts)
           \<and> (\<exists>ids. queryStorageAt mockApi
                    (map (getIdentityKey mockApi)
                       (missingAccountsOf (emptyWorld\<lparr>now := 1000\<rparr>) batchAccounts)) None = Inr ids
                 \<and> length ids = length (missingAccountsOf (emptyWorld\<lparr>now := 1000\<rparr>) batchAccounts))
         \<longrightarrow> lastUpdate e2 = now batchResolved"
    and f2: "\<forall>t. t - lastUpdate e2 \<le> 3600 * 1000 \<longrightarrow>
               snd (getAccountIdentity mockApi (Some ''0xacc2'') (batchResolved\<lparr>now := t\<rparr>))
                 = batchResolved\<lparr>now := t\<rparr>
             \<and> snd (getAccountIdentities mockApi (Some [Some ''0xacc2'']) None (batchResolved\<lparr>now := t\<rparr>))
                 = batchResolved\<lparr>now := t\<rparr>
             \<and> (\<forall>batch. ''0xacc2'' \<notin> set (missingAccountsOf (batchResolved\<lparr>now := t\<rparr>) batch))"
    and g2: "\<forall>t. t - lastUpdate e2 > 3600 * 1000 \<longrightarrow>
               calls (snd (getAccountIdentity mockApi (Some ''0xacc2'') (batchResolved\<lparr>now := t\<rparr>)))
                 = calls batchResolved @ [IdentityOf ''0xacc2'']
             \<and> calls (snd (getAccountIdentities mockApi (Some [Some ''0xacc2'']) None
                             (batchResolved\<lparr>now := t\<rparr>)))
                 = calls batchResolved @ [QueryStorageAt [getIdentityKey mockApi ''0xacc2''] None]
             \<and> (\<forall>batch. Some ''0xacc2'' \<in> set batch \<longrightarrow>
                   ''0xacc2'' \<in> set (missingAccountsOf (batchResolved\<lparr>now := t\<rparr>) batch))"
    by (elim exE conjE) (rule that)
  from u2 q batch_world have l2: "lastUpdate e2 = 1000"
    by (simp add: batchAccounts_def batch_missing)
  have c: "snd (getAccountIdentities mockApi (Some [Some ''0xacc2'']) None
                  (batchResolved\<lparr>now := 3601000\<rparr>)) = batchResolved\<lparr>now := 3601000\<rparr>"
    using f2 l2 by simp
  have d: "calls (snd (getAccountIdentities mockApi (Some [Some ''0xacc2'']) None
                    (batchResolved\<lparr>now := 3601001\<rparr>)))
       = calls batchResolved @ [QueryStorageAt [getIdentityKey mockApi ''0xacc2''] None]"
    using g2 l2 by simp
  have all: "\<forall>acc\<in>set batchAccounts. truthy acc \<longrightarrow>
               \<not> identityMissing (batchResolved\<lparr>now := 3601000\<rparr>) (the acc)"
    by (simp add: batchAccounts_def identityMissing_def batch_world)
  from t2 [THEN conjunct2, THEN conjunct2, THEN mp, OF all]
  have w: "snd (getAccountIdentities mockApi (Some batchAccounts) None
                  (batchResolved\<lparr>now := 3601000\<rparr>)) = batchResolved\<lparr>now := 3601000\<rparr>" .
  from first_run first_world a b batch_run batch_world c d w show ?thesis
    by simp
qed

text \<open>
  C4, as the code has it. When the author-mapping cache has no fresh entry for an author
  and the node answers that no account is mapped to it, \<^verbatim>\<open>getAuthorIdentity\<close> returns
  the empty string: the absent account is stored in the author-mapping cache, and
  \<^verbatim>\<open>getAccountIdentity\<close> returns \<^verbatim>\<open>""\<close> for it without a query and without touching
  the identity cache. The all-zero identifier is the placeholder of \<^verbatim>\<open>getBlockDetails\<close>
  for a block in which no author identifier is found.
\<close>

theorem author_without_mapping_resolves_to_empty:
  assumes "mappingMissing s author" and "mappingWithDeposit a author = Inr None"
  shows "getAuthorIdentity a author s =
           (Inr [],
            (rpc a (MappingWithDeposit author) s)
              \<lparr>authorMappingCache :=
                 (authorMappingCache s)
                   (author \<mapsto> \<lparr>account = None,
                               mappingLastUpdate = now s + latency a (MappingWithDeposit author)\<rparr>)\<rparr>)"
  using assms
  by (simp add: getAuthorIdentity_def getAccountIdentity_def)

theorem author_without_mapping_witness:
  "mappingMissing emptyWorld ''0xa1'' \<and> mappingWithDeposit unmappedApi ''0xa1'' = Inr None
   \<and> fst (getAuthorIdentity unmappedApi ''0xa1'' emptyWorld) = Inr []
   \<and> calls (snd (getAuthorIdentity unmappedApi ''0xa1'' emptyWorld)) = [MappingWithDeposit ''0xa1'']
   \<and> identityCache (snd (getAuthorIdentity unmappedApi ''0xa1'' emptyWorld)) = Map.empty"
proof -
  have m: "mappingMissing emptyWorld ''0xa1''"
    by (simp add: mappingMissing_def emptyWorld_def)
  have q: "mappingWithDeposit unmappedApi ''0xa1'' = Inr None"
    by (simp add: unmappedApi_def)
  show ?thesis
    using m q author_without_mapping_resolves_to_empty [OF m q]
    by (simp add: emptyWorld_def)
qed

text \<open>
  The claim as stated fails: on a node that maps no account to the author, the result is
  the empty string, not the all-zero account identifier.
\<close>

theorem unmapped_author_is_not_zero_account:
  "mappingWithDeposit unmappedApi ''0xa1'' = Inr None
   \<and> fst (getAuthorIdentity unmappedApi ''0xa1'' emptyWorld) = Inr []
   \<and> fst (getAuthorIdentity unmappedApi ''0xa1'' emptyWorld) \<noteq> Inr zeroAccount"
  by (simp add: getAuthorIdentity_def getAccountIdentity_def mappingMissing_def emptyWorld_def
      unmappedApi_def mockApi_def zeroAccount_def)

section \<open>Block aggregator: weight percentage and failures\<close>

lemma getBlockDetails_Inr:
  assumes "getBlockDetails a h s = (Inr d, s')"
  shows "\<exists>fees w q.
     apiAt a h = Inr () \<and> getBlock a (Some h) = Inr (block d)
     \<and> systemEvents a h = Inr (records d)
     \<and> timestampNow a h = Inr (blockTime d)
     \<and> collect (map (\<lambda>ext. queryInfo a (xhex ext) (parentHash (header (block d)))) (extrinsics (block d))) = Inr fees
     \<and> txWithEvents d = mapExtrinsics a (extrinsics (block d)) (records d) fees
     \<and> blockWeightFrom 0 (txWithEvents d) = Inr w
     \<and> bigint_div (w * 10000) (maxBlock a) = Inr q
     \<and> weightPercentage d = of_int q / 100
     \<and> (if truthy (findAuthorId (block d)) then fst (getAuthorIdentity a (the (findAuthorId (block d))) (afterFetches a h (block d) s))
         else Inr zeroAccount) = Inr (authorName d)"
  using assms
  unfolding getBlockDetails_def afterFetches_def Let_def
  by (auto split: sum.splits prod.splits if_splits simp: toNumber_def)

lemma blockWeightFrom_sum:
  "blockWeightFrom acc txs = Inr w \<Longrightarrow>
     w = acc + summedWeight txs \<and> (\<forall>tx\<in>set txs. dispatchInfo tx \<noteq> None)"
proof (induction txs arbitrary: acc)
  case Nil
  then show ?case by (simp add: summedWeight_def)
next
  case (Cons tx txs)
  then obtain i where i: "dispatchInfo tx = Some i"
    and r: "blockWeightFrom (acc + weight i) txs = Inr w"
    by (auto split: option.splits)
  from Cons.IH [OF r] show ?case
    using i by (simp add: summedWeight_def)
qed

lemma length_mapExtrinsics [simp]:
  "length (mapExtrinsics a exts recs fees) = length exts"
  by (simp add: mapExtrinsics_def)

lemma extrinsic_mapExtrinsics [simp]:
  "map extrinsic (mapExtrinsics a exts recs fees) = exts"
  by (simp add: mapExtrinsics_def Let_def split_beta o_def)

lemma collect_Inr_nth:
  "collect rs = Inr xs \<Longrightarrow> length xs = length rs \<and> (\<forall>i<length rs. rs ! i = Inr (xs ! i))"
proof (induction rs arbitrary: xs)
  case Nil
  then show ?case by simp
next
  case (Cons r rs)
  then show ?case
    by (auto split: sum.splits simp: nth_Cons split: nat.splits)
qed

lemma collect_Inl_mem:
  "r \<in> set rs \<Longrightarrow> r = Inl e \<Longrightarrow> \<exists>e'. collect rs = Inl e'"
  by (induction rs) (auto split: sum.splits)

text \<open>
  C2. For every snapshot \<^verbatim>\<open>getBlockDetails\<close> returns: it has one composite record per
  extrinsic of the block, in the order of the block, each with its dispatch information;
  the maximum block weight is not zero; and \<^verbatim>\<open>weightPercentage\<close> is the sum of the
  dispatched weights times 10000, divided as BigInts by the maximum block weight
  (truncating, which is the integer quotient for a non-negative sum and a positive
  maximum), then divided by 100. A block without extrinsics has an empty list of records
  and the weight percentage 0.
\<close>

theorem weight_percentage_of_snapshot:
  assumes "getBlockDetails a h s = (Inr d, s')"
  shows "map extrinsic (txWithEvents d) = extrinsics (block d)
     \<and> (\<forall>tx\<in>set (txWithEvents d). dispatchInfo tx \<noteq> None)
     \<and> maxBlock a \<noteq> 0
     \<and> weightPercentage d
         = of_int (tdiv (summedWeight (txWithEvents d) * 10000) (maxBlock a)) / 100
     \<and> (0 \<le> summedWeight (txWithEvents d) \<and> 0 < maxBlock a \<longrightarrow>
          weightPercentage d
            = of_int (summedWeight (txWithEvents d) * 10000 div maxBlock a) / 100)
     \<and> (extrinsics (block d) = [] \<longrightarrow> txWithEvents d = [] \<and> weightPercentage d = 0)"
proof -
  from getBlockDetails_Inr [OF assms] obtain fees w q where
    tx: "txWithEvents d = mapExtrinsics a (extrinsics (block d)) (records d) fees"
    and w: "blockWeightFrom 0 (txWithEvents d) = Inr w"
    and q: "bigint_div (w * 10000) (maxBlock a) = Inr q"
    and p: "weightPercentage d = of_int q / 100"
    by blast
  from blockWeightFrom_sum [OF w] have sw: "w = summedWeight (txWithEvents d)"
    and di: "\<forall>tx\<in>set (txWithEvents d). dispatchInfo tx \<noteq> None"
    by simp_all
  from q have nz: "maxBlock a \<noteq> 0" and qv: "q = tdiv (w * 10000) (maxBlock a)"
    by (auto simp: bigint_div_def tdiv_def split: if_splits)
  have len: "map extrinsic (txWithEvents d) = extrinsics (block d)"
    by (simp add: tx)
  have main: "weightPercentage d
         = of_int (tdiv (summedWeight (txWithEvents d) * 10000) (maxBlock a)) / 100"
    by (simp add: p qv sw)
  have pos: "0 \<le> summedWeight (txWithEvents d) \<and> 0 < maxBlock a \<longrightarrow>
          weightPercentage d
            = of_int (summedWeight (txWithEvents d) * 10000 div maxBlock a) / 100"
    by (auto simp: main tdiv_def sgn_if)
  have emp: "extrinsics (block d) = [] \<longrightarrow> txWithEvents d = [] \<and> weightPercentage d = 0"
  proof
    assume e: "extrinsics (block d) = []"
    then have t0: "txWithEvents d = []" using len by simp
    then show "txWithEvents d = [] \<and> weightPercentage d = 0"
      by (simp add: main summedWeight_def tdiv_def)
  qed
  show ?thesis using len di nz main pos emp by blast
qed

lemma mockIndex_simps [simp]:
  "mockIndex ''0xb0'' = Some 0" "mockIndex ''0xb1'' = Some 1" "mockIndex ''0xb2'' = Some 2"
  "mockIndex ''0xb3'' = Some 3" "mockIndex ''0xb4'' = Some 4" "mockIndex ''0xff'' = None"
  by (simp_all add: mockIndex_def mockHashes_def)

lemma mock_author [simp]: "findAuthorId (mockBlock n) = Some ''0xa1''"
  by (simp add: findAuthorId_def authorFromExtrinsics_def mockBlock_def setAuthorExt_def
      isSetAuthor_def)

lemma mockBlock_fields [simp]:
  "extrinsics (mockBlock n) = [setAuthorExt, transferExt]"
  "parentHash (header (mockBlock n)) = mockHashes ! (n - 1)"
  "hash (header (mockBlock n)) = mockHashes ! n"
  "number (header (mockBlock n)) = n"
  by (simp_all add: mockBlock_def)

lemma mock_details: "fst (getBlockDetails mockApi ''0xb2'' emptyWorld) = Inr mockDetails"
  by (simp add: getBlockDetails_def mockApi_def Let_def getAuthorIdentity_def
      getAccountIdentity_def mappingMissing_def identityMissing_def emptyWorld_def
      displayText_def mapExtrinsics_def toNumber_def bigint_div_def mockTimes_def
      enumerate_eq_zip mockDetails_def)

lemma empty_details: "fst (getBlockDetails emptyBlockApi ''0xb7'' emptyWorld) = Inr emptyDetails"
  by (simp add: getBlockDetails_def emptyBlockApi_def mockApi_def Let_def findAuthorId_def
      authorFromExtrinsics_def authorFromDigest_def mapExtrinsics_def toNumber_def
      bigint_div_def emptyDetails_def)

text \<open>
  On the test double: block 2 has two extrinsics of weight 125000000 each against a
  maximum of 500000000000, so 0.05 percent; the empty block has 0 percent.
\<close>

theorem weight_percentage_witness:
  "fst (getBlockDetails mockApi ''0xb2'' emptyWorld) = Inr mockDetails
   \<and> summedWeight (txWithEvents mockDetails) = 250000000
   \<and> maxBlock mockApi = 500000000000
   \<and> weightPercentage mockDetails = of_int (250000000 * 10000 div 500000000000) / 100
   \<and> weightPercentage mockDetails = 5 / 100
   \<and> fst (getBlockDetails emptyBlockApi ''0xb7'' emptyWorld) = Inr emptyDetails
   \<and> extrinsics (block emptyDetails) = []
   \<and> txWithEvents emptyDetails = [] \<and> weightPercentage emptyDetails = 0"
proof -
  have m: "getBlockDetails mockApi ''0xb2'' emptyWorld
             = (Inr mockDetails, snd (getBlockDetails mockApi ''0xb2'' emptyWorld))"
    using mock_details by (simp add: prod_eq_iff)
  have e: "getBlockDetails emptyBlockApi ''0xb7'' emptyWorld
             = (Inr emptyDetails, snd (getBlockDetails emptyBlockApi ''0xb7'' emptyWorld))"
    using empty_details by (simp add: prod_eq_iff)
  have sw: "summedWeight (txWithEvents mockDetails) = 250000000"
    by (simp add: summedWeight_def mockDetails_def)
  have mb: "maxBlock mockApi = 500000000000"
    by (simp add: mockApi_def)
  have ex: "extrinsics (block emptyDetails) = []"
    by (simp add: emptyDetails_def)
  show ?thesis
    using weight_percentage_of_snapshot [OF m] weight_percentage_of_snapshot [OF e]
      mock_details empty_details sw mb ex
    by simp
qed

lemma getBlockDetails_early_failure:
  assumes "apiAt a h = Inl e \<or> getBlock a (Some h) = Inl e \<or> systemEvents a h = Inl e
           \<or> timestampNow a h = Inl e"
  shows "isl (fst (getBlockDetails a h s))
     \<and> identityCache (snd (getBlockDetails a h s)) = identityCache s
     \<and> authorMappingCache (snd (getBlockDetails a h s)) = authorMappingCache s"
  using assms
  unfolding getBlockDetails_def Let_def
  by (auto split: sum.splits)

lemma getBlockDetails_world:
  assumes "apiAt a h = Inr u" and "getBlock a (Some h) = Inr blk"
    and "systemEvents a h = Inr recs" and "timestampNow a h = Inr t"
    and "truthy (findAuthorId blk)"
  shows "snd (getBlockDetails a h s)
           = snd (getAuthorIdentity a (the (findAuthorId blk)) (afterFetches a h blk s))"
  using assms
  unfolding getBlockDetails_def afterFetches_def Let_def
  by (auto split: sum.splits prod.splits)

lemma isl_fst_or_Inr: "\<not> isl (fst p) \<Longrightarrow> \<exists>d. p = (Inr d, snd p)"
  by (cases p, cases "fst p") auto

text \<open>
  C3, as the code has it. A failing sub-fetch fails the whole aggregation, and no snapshot
  is returned: (1) when the API at the block, the block, its events or its timestamp
  fails, and then both caches are as they were; (2) when the fee quote of one of the
  extrinsics fails; (3) when the resolution of the author fails. But nothing is rolled
  back: (4) once the first fetches have succeeded and the block has an author, the world
  after \<^verbatim>\<open>getBlockDetails\<close>, its caches included, is the world the author resolution
  leaves, whether or not a fee quote failed.
\<close>

theorem failed_fetch_gives_no_snapshot:
  "((apiAt a h = Inl e \<or> getBlock a (Some h) = Inl e \<or> systemEvents a h = Inl e
      \<or> timestampNow a h = Inl e) \<longrightarrow>
        isl (fst (getBlockDetails a h s))
      \<and> identityCache (snd (getBlockDetails a h s)) = identityCache s
      \<and> authorMappingCache (snd (getBlockDetails a h s)) = authorMappingCache s)
   \<and> (getBlock a (Some h) = Inr blk \<and> ext \<in> set (extrinsics blk)
        \<and> queryInfo a (xhex ext) (parentHash (header blk)) = Inl e \<longrightarrow>
        isl (fst (getBlockDetails a h s)))
   \<and> (getBlock a (Some h) = Inr blk \<and> truthy (findAuthorId blk)
        \<and> fst (getAuthorIdentity a (the (findAuthorId blk)) (afterFetches a h blk s)) = Inl e \<longrightarrow>
        isl (fst (getBlockDetails a h s)))
   \<and> (apiAt a h = Inr () \<and> getBlock a (Some h) = Inr blk \<and> systemEvents a h = Inr recs
        \<and> timestampNow a h = Inr t \<and> truthy (findAuthorId blk) \<longrightarrow>
        snd (getBlockDetails a h s)
          = snd (getAuthorIdentity a (the (findAuthorId blk)) (afterFetches a h blk s)))"
proof (intro conjI impI)
  assume "apiAt a h = Inl e \<or> getBlock a (Some h) = Inl e \<or> systemEvents a h = Inl e
      \<or> timestampNow a h = Inl e"
  from getBlockDetails_early_failure [OF this]
  show "isl (fst (getBlockDetails a h s))"
    and "identityCache (snd (getBlockDetails a h s)) = identityCache s"
    and "authorMappingCache (snd (getBlockDetails a h s)) = authorMappingCache s"
    by simp_all
next
  assume f: "getBlock a (Some h) = Inr blk \<and> ext \<in> set (extrinsics blk)
        \<and> queryInfo a (xhex ext) (parentHash (header blk)) = Inl e"
  show "isl (fst (getBlockDetails a h s))"
  proof (rule ccontr)
    assume "\<not> isl (fst (getBlockDetails a h s))"
    then obtain d where d: "getBlockDetails a h s = (Inr d, snd (getBlockDetails a h s))"
      using isl_fst_or_Inr by blast
    from getBlockDetails_Inr [OF d] obtain fees where
      b: "getBlock a (Some h) = Inr (block d)"
      and c: "collect (map (\<lambda>ext. queryInfo a (xhex ext) (parentHash (header (block d))))
                 (extrinsics (block d))) = Inr fees"
      by blast
    from b f have bd: "block d = blk" by simp
    from f have mem: "ext \<in> set (extrinsics blk)"
      and qe: "queryInfo a (xhex ext) (parentHash (header blk)) = Inl e"
      by simp_all
    have "Inl e \<in> (\<lambda>x. queryInfo a (xhex x) (parentHash (header blk))) ` set (extrinsics blk)"
      by (rule rev_image_eqI [OF mem]) (simp add: qe)
    then have "Inl e
        \<in> set (map (\<lambda>x. queryInfo a (xhex x) (parentHash (header blk))) (extrinsics blk))"
      by simp
    from collect_Inl_mem [OF this refl] c bd show False by auto
  qed
next
  assume f: "getBlock a (Some h) = Inr blk \<and> truthy (findAuthorId blk)
        \<and> fst (getAuthorIdentity a (the (findAuthorId blk)) (afterFetches a h blk s)) = Inl e"
  show "isl (fst (getBlockDetails a h s))"
  proof (rule ccontr)
    assume "\<not> isl (fst (getBlockDetails a h s))"
    then obtain d where d: "getBlockDetails a h s = (Inr d, snd (getBlockDetails a h s))"
      using isl_fst_or_Inr by blast
    from getBlockDetails_Inr [OF d] have
      b: "getBlock a (Some h) = Inr (block d)"
      and c: "(if truthy (findAuthorId (block d))
               then fst (getAuthorIdentity a (the (findAuthorId (block d)))
                          (afterFetches a h (block d) s))
               else Inr zeroAccount) = Inr (authorName d)"
      by blast+
    from b f have bd: "block d = blk" by simp
    from c f bd show False by simp
  qed
next
  assume "apiAt a h = Inr () \<and> getBlock a (Some h) = Inr blk \<and> systemEvents a h = Inr recs
        \<and> timestampNow a h = Inr t \<and> truthy (findAuthorId blk)"
  then show "snd (getBlockDetails a h s)
          = snd (getAuthorIdentity a (the (findAuthorId blk)) (afterFetches a h blk s))"
    using getBlockDetails_world by blast
qed

lemma fee_failure_run:
  "fst (getBlockDetails feeFailingApi ''0xb2'' emptyWorld) = Inl (RpcError ''payment_queryInfo'')
   \<and> authorMappingCache (snd (getBlockDetails feeFailingApi ''0xb2'' emptyWorld)) ''0xa1''
       = Some \<lparr>account = Some ''0xacc1'', mappingLastUpdate = 0\<rparr>
   \<and> identityCache (snd (getBlockDetails feeFailingApi ''0xb2'' emptyWorld)) ''0xacc1''
       = Some \<lparr>identity = Some \<lparr>display = Raw ''alice''\<rparr>, lastUpdate = 0\<rparr>"
  by (simp add: getBlockDetails_def feeFailingApi_def mockApi_def Let_def getAuthorIdentity_def
      getAccountIdentity_def mappingMissing_def identityMissing_def emptyWorld_def
      displayText_def mockTimes_def)

text \<open>
  The claim as stated fails: with every fee quote failing, the aggregation of block 2
  fails, and yet the author-mapping cache and the identity cache, empty before, hold the
  entries of the author and of its account afterwards.
\<close>

theorem fee_failure_still_writes_caches:
  "(\<exists>e. queryInfo feeFailingApi (xhex transferExt) ''0xb1'' = Inl e)
   \<and> isl (fst (getBlockDetails feeFailingApi ''0xb2'' emptyWorld))
   \<and> authorMappingCache emptyWorld ''0xa1'' = None
   \<and> authorMappingCache (snd (getBlockDetails feeFailingApi ''0xb2'' emptyWorld)) ''0xa1''
       = Some \<lparr>account = Some ''0xacc1'', mappingLastUpdate = 0\<rparr>
   \<and> identityCache emptyWorld ''0xacc1'' = None
   \<and> identityCache (snd (getBlockDetails feeFailingApi ''0xb2'' emptyWorld)) ''0xacc1''
       = Some \<lparr>identity = Some \<lparr>display = Raw ''alice''\<rparr>, lastUpdate = 0\<rparr>"
  using fee_failure_run
  by (simp add: feeFailingApi_def emptyWorld_def)

text \<open>
  On the test double: an unknown block hash, failing fee quotes, and a failing author
  mapping.
\<close>

theorem failed_fetch_witness:
  "getBlock mockApi (Some ''0xff'') = Inl (RpcError ''unknown block'')
   \<and> isl (fst (getBlockDetails mockApi ''0xff'' emptyWorld))
   \<and> identityCache (snd (getBlockDetails mockApi ''0xff'' emptyWorld)) = Map.empty
   \<and> authorMappingCache (snd (getBlockDetails mockApi ''0xff'' emptyWorld)) = Map.empty
   \<and> getBlock feeFailingApi (Some ''0xb2'') = Inr (mockBlock 2)
   \<and> transferExt \<in> set (extrinsics (mockBlock 2))
   \<and> queryInfo feeFailingApi (xhex transferExt) (parentHash (header (mockBlock 2)))
       = Inl (RpcError ''payment_queryInfo'')
   \<and> isl (fst (getBlockDetails feeFailingApi ''0xb2'' emptyWorld))
   \<and> fst (getAuthorIdentity mappingFailingApi ''0xa1''
            (afterFetches mappingFailingApi ''0xb2'' (mockBlock 2) emptyWorld))
       = Inl (RpcError ''authorMapping'')
   \<and> isl (fst (getBlockDetails mappingFailingApi ''0xb2'' emptyWorld))
   \<and> snd (getBlockDetails feeFailingApi ''0xb2'' emptyWorld)
       = snd (getAuthorIdentity feeFailingApi ''0xa1''
               (afterFetches feeFailingApi ''0xb2'' (mockBlock 2) emptyWorld))"
proof -
  have g1: "getBlock mockApi (Some ''0xff'') = Inl (RpcError ''unknown block'')"
    by (simp add: mockApi_def)
  have g2: "getBlock feeFailingApi (Some ''0xb2'') = Inr (mockBlock 2)"
    and g3: "getBlock mappingFailingApi (Some ''0xb2'') = Inr (mockBlock 2)"
    by (simp_all add: feeFailingApi_def mappingFailingApi_def mockApi_def)
  have q: "queryInfo feeFailingApi (xhex transferExt) (parentHash (header (mockBlock 2)))
             = Inl (RpcError ''payment_queryInfo'')"
    by (simp add: feeFailingApi_def)
  have m: "fst (getAuthorIdentity mappingFailingApi ''0xa1''
                  (afterFetches mappingFailingApi ''0xb2'' (mockBlock 2) emptyWorld))
             = Inl (RpcError ''authorMapping'')"
    by (simp add: getAuthorIdentity_def mappingFailingApi_def mappingMissing_def afterFetches_def
        emptyWorld_def)
  have o: "apiAt feeFailingApi ''0xb2'' = Inr ()" "systemEvents feeFailingApi ''0xb2'' = Inr []"
    "timestampNow feeFailingApi ''0xb2'' = Inr 4000"
    by (simp_all add: feeFailingApi_def mockApi_def mockTimes_def)
  show ?thesis
    using failed_fetch_gives_no_snapshot
        [of mockApi "''0xff''" "RpcError ''unknown block''" emptyWorld]
      failed_fetch_gives_no_snapshot
        [of feeFailingApi "''0xb2''" "RpcError ''payment_queryInfo''" emptyWorld "mockBlock 2"
          transferExt "[]" 4000]
      failed_fetch_gives_no_snapshot
        [of mappingFailingApi "''0xb2''" "RpcError ''authorMapping''" emptyWorld "mockBlock 2"]
      g1 g2 g3 q m o
    by (simp add: emptyWorld_def)
qed

section \<open>The test double at work\<close>

lemma mock_fields [simp]:
  "maxBlock mockApi = 500000000000"
  "apiAt mockApi h = Inr ()"
  "systemEvents mockApi h = Inr []"
  "queryInfo mockApi x p = Inr \<lparr>feeWeight = 125000000, feeClass = Normal, partialFee = 1000000\<rparr>"
  "identityOf mockApi acc = Inr (Some \<lparr>display = Raw ''alice''\<rparr>)"
  "mappingWithDeposit mockApi author = Inr (Some ''0xacc1'')"
  "pendingExtrinsics mockApi = Inr []"
  "latency mockApi q = 0"
  "ethereumEncode mockApi t = t"
  "dispatchOutcome mockApi evs = Some \<lparr>weight = 125000000, dclass = Normal, paysFee = Yes\<rparr>"
  by (simp_all add: mockApi_def)

lemma mock_chain:
  assumes "n < 5"
  shows "getBlock mockApi (Some (mockHashes ! n)) = Inr (mockBlock n)"
    and "timestampNow mockApi (mockHashes ! n) = Inr (mockTimes ! n)"
    and "getBlockHash mockApi (int n) = Inr (mockHashes ! n)"
    and "\<bar>mockTimes ! n\<bar> < 2 ^ 53"
proof -
  from assms have "n = 0 \<or> n = 1 \<or> n = 2 \<or> n = 3 \<or> n = 4" by arith
  then show "getBlock mockApi (Some (mockHashes ! n)) = Inr (mockBlock n)"
    and "timestampNow mockApi (mockHashes ! n) = Inr (mockTimes ! n)"
    and "getBlockHash mockApi (int n) = Inr (mockHashes ! n)"
    and "\<bar>mockTimes ! n\<bar> < 2 ^ 53"
    by (auto simp: mockApi_def mockHashes_def mockTimes_def)
qed

lemma mockWorld_rpc [simp]: "mockWorld (rpc mockApi q s) = mockWorld s"
  by (simp add: mockWorld_def)

lemma mockWorld_feeQueries [simp]: "mockWorld (feeQueries mockApi p exts s) = mockWorld s"
  by (induction exts arbitrary: s) simp_all

lemma mockWorld_empty: "mockWorld emptyWorld"
  by (simp add: mockWorld_def emptyWorld_def)

lemma mock_author_resolution:
  assumes "mockWorld s"
  shows "fst (getAuthorIdentity mockApi ''0xa1'' s) = Inr ''alice''
       \<and> mockWorld (snd (getAuthorIdentity mockApi ''0xa1'' s))"
proof -
  from assms have t: "now s = 0"
    and m: "authorMappingCache s ''0xa1'' = None \<or> authorMappingCache s ''0xa1'' = Some authorEntry"
    and i: "identityCache s ''0xacc1'' = None \<or> identityCache s ''0xacc1'' = Some aliceEntry"
    by (auto simp: mockWorld_def split: option.splits)
  from m i show ?thesis
    by (elim disjE)
      (simp_all add: getAuthorIdentity_def getAccountIdentity_def mappingMissing_def
        identityMissing_def mockWorld_def authorEntry_def aliceEntry_def displayText_def
        Let_def t)
qed

lemma mock_txs:
  "mapExtrinsics mockApi [setAuthorExt, transferExt] []
     [\<lparr>feeWeight = 125000000, feeClass = Normal, partialFee = 1000000\<rparr>,
      \<lparr>feeWeight = 125000000, feeClass = Normal, partialFee = 1000000\<rparr>]
   = txWithEvents mockDetails"
  by (simp add: mapExtrinsics_def enumerate_eq_zip mockDetails_def)

lemma mock_getBlockDetails:
  assumes "n < 5" and "mockWorld s"
  shows "fst (getBlockDetails mockApi (mockHashes ! n) s) = Inr (mockSeen n)
       \<and> mockWorld (snd (getBlockDetails mockApi (mockHashes ! n) s))"
proof -
  let ?s3 = "afterFetches mockApi (mockHashes ! n) (mockBlock n) s"
  have w: "mockWorld ?s3" using assms(2) by (simp add: afterFetches_def)
  obtain s4 where r: "getAuthorIdentity mockApi ''0xa1'' ?s3 = (Inr ''alice'', s4)"
    and w4: "mockWorld s4"
    using mock_author_resolution [OF w]
    by (cases "getAuthorIdentity mockApi ''0xa1'' ?s3") auto
  have "getBlockDetails mockApi (mockHashes ! n) s = (Inr (mockSeen n), s4)"
    using mock_chain [OF assms(1)] r
    by (simp add: getBlockDetails_def Let_def afterFetches_def mock_txs toNumber_def
        bigint_div_def mockSeen_def mockDetails_def)
  with w4 show ?thesis by simp
qed

lemma mock_runTasks:
  assumes "mockWorld s" and "\<forall>n\<in>set ns. n < 5"
  shows "fst (runTasks mockApi (map int ns) s) = map (\<lambda>n. Inr (mockSeen n)) ns
       \<and> mockWorld (snd (runTasks mockApi (map int ns) s))"
  using assms
proof (induction ns arbitrary: s)
  case Nil
  then show ?case by simp
next
  case (Cons n ns)
  then have n: "n < 5" by simp
  let ?s1 = "rpc mockApi (GetBlockHash (int n)) s"
  have w1: "mockWorld ?s1" using Cons.prems(1) by simp
  obtain s2 where t: "blockTask mockApi (int n) s = (Inr (mockSeen n), s2)" and w2: "mockWorld s2"
    using mock_getBlockDetails [OF n w1] mock_chain(3) [OF n]
    by (cases "getBlockDetails mockApi (mockHashes ! n) ?s1") (auto simp: blockTask_def Let_def)
  from Cons.IH [OF w2] Cons.prems(2) t show ?case
    by (auto simp: split_beta)
qed

lemma collect_map_Inr [simp]: "collect (map (\<lambda>x. Inr (f x)) xs) = Inr (map f xs)"
  by (induction xs) simp_all

section \<open>Range walker: one callback per block, in order\<close>

declare batchNumbers.simps [simp del]

lemma batchNumbers_eq:
  "batchNumbers i conc current to_block =
     ([current .. current + max 0 (min (conc - i) (to_block - current + 1)) - 1],
      current + max 0 (min (conc - i) (to_block - current + 1)))"
proof (induction i conc current to_block rule: batchNumbers.induct)
  case (1 i conc current to_block)
  show ?case
  proof (cases "i < conc \<and> current \<le> to_block")
    case True
    then have k: "max 0 (min (conc - i) (to_block - current + 1))
                 = 1 + max 0 (min (conc - (i + 1)) (to_block - (current + 1) + 1))"
      by auto
    show ?thesis
      using True "1.IH" [OF True]
      by (subst batchNumbers.simps) (simp add: k upto_rec1 [of current])
  next
    case False
    then have "max 0 (min (conc - i) (to_block - current + 1)) = 0" by auto
    with False show ?thesis
      by (subst batchNumbers.simps) auto
  qed
qed

lemma blockTask_number:
  assumes "blockTask a n s = (Inr d, s')" and "consistentChain a"
  shows "blockNumberOf d = n"
proof -
  from assms(1) obtain h where h: "getBlockHash a n = Inr h"
    and g: "getBlockDetails a h (rpc a (GetBlockHash n) s) = (Inr d, s')"
    by (auto simp: blockTask_def Let_def split: sum.splits)
  from getBlockDetails_Inr [OF g] have "getBlock a (Some h) = Inr (block d)" by blast
  with h assms(2) show ?thesis
    unfolding consistentChain_def blockNumberOf_def by blast
qed

lemma runTasks_numbers:
  assumes "consistentChain a"
  shows "runTasks a ns s = (rs, s') \<Longrightarrow> collect rs = Inr ds \<Longrightarrow> map blockNumberOf ds = ns"
proof (induction ns arbitrary: s s' rs ds)
  case Nil
  then show ?case by auto
next
  case (Cons n ns)
  obtain r s1 where t: "blockTask a n s = (r, s1)" by (cases "blockTask a n s")
  obtain rs' s2 where u: "runTasks a ns s1 = (rs', s2)" by (cases "runTasks a ns s1")
  from Cons.prems(1) t u have rs: "rs = r # rs'" by simp
  with Cons.prems(2) obtain d ds' where r: "r = Inr d" and c: "collect rs' = Inr ds'"
    and ds: "ds = d # ds'"
    by (auto split: sum.splits)
  from blockTask_number [OF t [unfolded r] assms] Cons.IH [OF u c] ds
  show ?case by simp
qed

lemma callBackEach_record: "callBackEach recordBlock ds seen = (Inr (), seen @ ds)"
  by (induction ds arbitrary: seen) (simp_all add: recordBlock_def)

lemma exploreLoop_record:
  assumes "1 \<le> conc" and "consistentChain a"
  shows "\<exists>r s' seen' m.
           exploreLoop a to_block conc recordBlock current s seen = Some (r, s', seen')
         \<and> current \<le> m \<and> m \<le> max current (to_block + 1)
         \<and> map blockNumberOf seen' = map blockNumberOf seen @ [current .. m - 1]
         \<and> (r = Inr () \<longrightarrow> m = max current (to_block + 1))"
proof (induction "nat (to_block + 1 - current)" arbitrary: current s seen rule: less_induct)
  case less
  show ?case
  proof (cases "current \<le> to_block")
    case False
    then have "exploreLoop a to_block conc recordBlock current s seen = Some (Inr (), s, seen)"
      by (subst exploreLoop.simps) simp
    with False show ?thesis
      by (intro exI [of _ "Inr ()"] exI [of _ s] exI [of _ seen] exI [of _ current]) auto
  next
    case True
    define k where "k = min conc (to_block - current + 1)"
    have k1: "1 \<le> k" and k2: "current + k \<le> to_block + 1"
      using True assms(1) by (auto simp: k_def)
    have b: "batchNumbers 0 conc current to_block = ([current .. current + k - 1], current + k)"
      using k1 by (simp add: batchNumbers_eq k_def)
    obtain rs s1 where t: "runTasks a [current .. current + k - 1] s = (rs, s1)"
      by (cases "runTasks a [current .. current + k - 1] s")
    show ?thesis
    proof (cases "collect rs")
      case (Inl e)
      then have "exploreLoop a to_block conc recordBlock current s seen = Some (Inl e, s1, seen)"
        using True b t by (subst exploreLoop.simps) simp
      then show ?thesis
        by (intro exI [of _ "Inl e"] exI [of _ s1] exI [of _ seen] exI [of _ current]) auto
    next
      case (Inr ds)
      from runTasks_numbers [OF assms(2) t Inr]
      have nums: "map blockNumberOf ds = [current .. current + k - 1]" .
      have step: "exploreLoop a to_block conc recordBlock current s seen
                    = exploreLoop a to_block conc recordBlock (current + k) s1 (seen @ ds)"
        using True b t Inr by (subst exploreLoop.simps) (simp add: callBackEach_record)
      have "nat (to_block + 1 - (current + k)) < nat (to_block + 1 - current)"
        using k1 True by simp
      from less [OF this, of s1 "seen @ ds"] obtain r s' seen' m where
        e: "exploreLoop a to_block conc recordBlock (current + k) s1 (seen @ ds)
              = Some (r, s', seen')"
        and m1: "current + k \<le> m" and m2: "m \<le> max (current + k) (to_block + 1)"
        and mp: "map blockNumberOf seen' = map blockNumberOf (seen @ ds) @ [current + k .. m - 1]"
        and fin: "r = Inr () \<longrightarrow> m = max (current + k) (to_block + 1)"
        by blast
      have join: "[current .. current + k - 1] @ [current + k .. m - 1] = [current .. m - 1]"
        using k1 m1 upto_split2 [of current "current + k - 1" "m - 1"] by simp
      have "map blockNumberOf seen' = map blockNumberOf seen @ [current .. m - 1]"
        using mp nums join by simp
      moreover have "current \<le> m" using m1 k1 by simp
      moreover have "m \<le> max current (to_block + 1)" using m2 k2 by simp
      moreover have "r = Inr () \<longrightarrow> m = max current (to_block + 1)" using fin k2 True by auto
      ultimately show ?thesis using step e by auto
    qed
  qed
qed

text \<open>
  C1. For a closed range with \<open>from \<le> to\<close>, a concurrency of at least 1 (or left to its
  default of 1) and a consistent chain, \<^verbatim>\<open>exploreBlockRange\<close> returns, and the blocks its
  callback has been given are numbered \<open>from, from + 1, ...\<close> without a gap, so in
  strictly increasing order, each once. When the walk ends without a failure, the
  callback has been invoked exactly \<open>to - from + 1\<close> times, on the blocks \<open>from\<close> to
  \<open>to\<close>. (A failing fetch aborts the walk, after the callbacks of the batches before.)
\<close>

theorem range_walk_calls_back_once_per_block:
  assumes "range_from opts \<le> range_to opts"
    and "(case concurrency opts of None \<Rightarrow> 1 | Some k \<Rightarrow> k) \<ge> 1"
    and "consistentChain a"
  shows "\<exists>r s' seen.
           exploreBlockRange a opts recordBlock s [] = Some (r, s', seen)
         \<and> map blockNumberOf seen = [range_from opts .. range_from opts + int (length seen) - 1]
         \<and> sorted_wrt (<) (map blockNumberOf seen)
         \<and> (r = Inr () \<longrightarrow>
               int (length seen) = range_to opts - range_from opts + 1
             \<and> map blockNumberOf seen = [range_from opts .. range_to opts])"
proof -
  from exploreLoop_record [OF assms(2) assms(3),
      of "range_to opts" "range_from opts" s "[]"]
  obtain r s' seen m where
    e: "exploreBlockRange a opts recordBlock s [] = Some (r, s', seen)"
    and m1: "range_from opts \<le> m" and m2: "m \<le> max (range_from opts) (range_to opts + 1)"
    and mp: "map blockNumberOf seen = [range_from opts .. m - 1]"
    and fin: "r = Inr () \<longrightarrow> m = max (range_from opts) (range_to opts + 1)"
    unfolding exploreBlockRange_def by auto
  from mp have "length seen = length [range_from opts .. m - 1]"
    by (metis length_map)
  then have len: "int (length seen) = m - range_from opts" using m1 by simp
  have a1: "map blockNumberOf seen = [range_from opts .. range_from opts + int (length seen) - 1]"
    using mp len by simp
  have a2: "sorted_wrt (<) (map blockNumberOf seen)"
    by (simp add: mp)
  have a3: "r = Inr () \<longrightarrow>
               int (length seen) = range_to opts - range_from opts + 1
             \<and> map blockNumberOf seen = [range_from opts .. range_to opts]"
    using fin len mp assms(1) by auto
  show ?thesis using e a1 a2 a3 by blast
qed

lemma mock_walk:
  "\<exists>s'. exploreBlockRange mockApi walkOpts recordBlock emptyWorld []
          = Some (Inr (), s', [mockSeen 1, mockSeen 2, mockSeen 3])"
proof -
  obtain rs1 s1 where t1: "runTasks mockApi [1, 2] emptyWorld = (rs1, s1)"
    by (cases "runTasks mockApi [1, 2] emptyWorld")
  from mock_runTasks [OF mockWorld_empty, of "[1, 2]"] t1
  have r1: "rs1 = [Inr (mockSeen 1), Inr (mockSeen 2)]" and w1: "mockWorld s1"
    by simp_all
  obtain rs2 s2 where t2: "runTasks mockApi [3] s1 = (rs2, s2)"
    by (cases "runTasks mockApi [3] s1")
  from mock_runTasks [OF w1, of "[3]"] t2
  have r2: "rs2 = [Inr (mockSeen 3)]"
    by simp
  have b1: "batchNumbers 0 2 1 3 = ([1, 2], 3)" and b2: "batchNumbers 0 2 3 3 = ([3], 4)"
    by (simp_all add: batchNumbers_eq upto_rec1)
  have l3: "exploreLoop mockApi 3 2 recordBlock 4 s2 seen = Some (Inr (), s2, seen)" for seen
    by (subst exploreLoop.simps) simp
  have l2: "exploreLoop mockApi 3 2 recordBlock 3 s1 seen
              = Some (Inr (), s2, seen @ [mockSeen 3])" for seen
    by (subst exploreLoop.simps)
      (simp add: b2 t2 r2 callBackEach_record l3 del: runTasks.simps callBackEach.simps)
  have l1: "exploreLoop mockApi 3 2 recordBlock 1 emptyWorld []
              = Some (Inr (), s2, [mockSeen 1, mockSeen 2, mockSeen 3])"
    by (subst exploreLoop.simps)
      (simp add: b1 t1 r1 callBackEach_record l2 del: runTasks.simps callBackEach.simps)
  then show ?thesis
    by (auto simp: exploreBlockRange_def walkOpts_def)
qed

lemma mock_consistent: "consistentChain mockApi"
  unfolding consistentChain_def
proof (intro allI impI)
  fix n h b
  assume a: "getBlockHash mockApi n = Inr h \<and> getBlock mockApi (Some h) = Inr b"
  then have r: "0 \<le> n \<and> n < 5"
    by (auto simp: mockApi_def split: if_splits)
  then have "n = 0 \<or> n = 1 \<or> n = 2 \<or> n = 3 \<or> n = 4" by arith
  then show "int (number (header b)) = n"
    using a by (auto simp: mockApi_def mockHashes_def)
qed

text \<open>
  On the test double: the walk over blocks 1 to 3, two at a time, ends without a failure
  after three callbacks, on blocks 1, 2 and 3.
\<close>

theorem range_walk_witness:
  "range_from walkOpts \<le> range_to walkOpts \<and> concurrency walkOpts = Some 2
   \<and> consistentChain mockApi
   \<and> (\<exists>s'. exploreBlockRange mockApi walkOpts recordBlock emptyWorld []
             = Some (Inr (), s', [mockSeen 1, mockSeen 2, mockSeen 3]))
   \<and> map blockNumberOf [mockSeen 1, mockSeen 2, mockSeen 3] = [1, 2, 3]
   \<and> int (length [mockSeen 1, mockSeen 2, mockSeen 3]) = range_to walkOpts - range_from walkOpts + 1"
proof -
  have o: "range_from walkOpts \<le> range_to walkOpts"
    and c: "(case concurrency walkOpts of None \<Rightarrow> 1 | Some k \<Rightarrow> k) \<ge> 1"
    by (simp_all add: walkOpts_def)
  from mock_walk obtain s' where
    w: "exploreBlockRange mockApi walkOpts recordBlock emptyWorld []
          = Some (Inr (), s', [mockSeen 1, mockSeen 2, mockSeen 3])"
    by blast
  from range_walk_calls_back_once_per_block [OF o c mock_consistent, of emptyWorld] w
  have "map blockNumberOf [mockSeen 1, mockSeen 2, mockSeen 3] = [1, 2, 3]"
    and "int (length [mockSeen 1, mockSeen 2, mockSeen 3]) = range_to walkOpts - range_from walkOpts + 1"
    by (auto simp: walkOpts_def upto_rec1)
  with o w mock_consistent show ?thesis
    by (auto simp: walkOpts_def)
qed

section \<open>Live follower: elapsed times and the order of the handlers\<close>

lemma differences_Nil [simp]: "differences b [] = []"
  by (simp add: differences_def)

lemma differences_Cons [simp]: "differences b (t # ts) = (t - b) # differences t ts"
  by (cases ts) (simp_all add: differences_def)

lemma differences_snoc: "differences b (ts @ [t]) = differences b ts @ [t - last (b # ts)]"
  by (induction ts arbitrary: b) simp_all

lemma heads_append [simp]:
  "begunHeads (es @ es') = begunHeads es @ begunHeads es'"
  "returnedHeads (es @ es') = returnedHeads es @ returnedHeads es'"
  "failedHeads (es @ es') = failedHeads es @ failedHeads es'"
  "finishedHeads (es @ es') = finishedHeads es @ finishedHeads es'"
proof -
  show "begunHeads (es @ es') = begunHeads es @ begunHeads es'"
    by (induction es rule: begunHeads.induct) simp_all
  show "returnedHeads (es @ es') = returnedHeads es @ returnedHeads es'"
    by (induction es rule: returnedHeads.induct) simp_all
  show "failedHeads (es @ es') = failedHeads es @ failedHeads es'"
    by (induction es rule: failedHeads.induct) simp_all
  show "finishedHeads (es @ es') = finishedHeads es @ finishedHeads es'"
    by (induction es rule: finishedHeads.induct) simp_all
qed

lemma failed_in_finished: "set (failedHeads es) \<subseteq> set (finishedHeads es)"
  by (induction es rule: finishedHeads.induct) auto

lemma returned_when_none_failed: "failedHeads es = [] \<Longrightarrow> returnedHeads es = finishedHeads es"
  by (induction es rule: finishedHeads.induct) simp_all

lemma finished_succeeded: "finishedHeads es = returnedHeads (map succeeded es)"
  by (induction es rule: finishedHeads.induct) simp_all

lemma begun_succeeded: "begunHeads (map succeeded es) = begunHeads es"
  by (induction es rule: finishedHeads.induct) simp_all

lemma succeeded_id: "failedHeads es = [] \<Longrightarrow> map succeeded es = es"
  by (induction es rule: failedHeads.induct) simp_all

lemma not_serial_two_begins: "\<not> serialTrace (es @ Begin k # Begin k' # es')"
  by (induction es rule: serialTrace.induct) simp_all

lemma remove1_found:
  "find (\<lambda>h. hash h = k) xs = Some h \<Longrightarrow> map hash (remove1 h xs) = remove1 k (map hash xs)"
proof (induction xs)
  case Nil
  then show ?case by simp
next
  case (Cons x xs)
  show ?case
  proof (cases "hash x = k")
    case True
    with Cons.prems show ?thesis by simp
  next
    case False
    with Cons.prems have f: "find (\<lambda>h. hash h = k) xs = Some h" by simp
    then have "hash h = k" by (auto simp: find_Some_iff)
    with False have "h \<noteq> x" by auto
    with False f Cons.IH show ?thesis by simp
  qed
qed

text \<open>The handler on one head, with the recording callback.\<close>

lemma onHead_record:
  assumes "onHead a recordHead h (latest, s, seen) = (r, latest', s', seen')"
  shows "(r \<noteq> Inr () \<and> latest' = latest \<and> seen' = seen
            \<and> (isl (fst (getBlockDetails a (hash h) s)) \<or> isl (pendingExtrinsics a)))
       \<or> (r = Inr () \<and> latest' = timestampOf a (hash h)
            \<and> seen' = seen @ [(latest', latest' - latest)])"
proof (cases "getBlockDetails a (hash h) s")
  case (Pair answer s1)
  show ?thesis
  proof (cases answer)
    case (Inl e)
    with Pair assms show ?thesis
      by (auto simp: onHead_def Let_def)
  next
    case (Inr d)
    from getBlockDetails_Inr [OF Pair [unfolded Inr]]
    have "timestampNow a (hash h) = Inr (blockTime d)" by blast
    then have t: "timestampOf a (hash h) = blockTime d" by (simp add: timestampOf_def)
    from Pair Inr assms t show ?thesis
      by (auto simp: onHead_def Let_def recordHead_def realtimeOf_def split: sum.splits)
  qed
qed

lemma inv_start: "followerInv a b (startFollower b s [])"
  by (simp add: followerInv_def startFollower_def)

lemma inv_deliver:
  assumes "followerInv a b f"
  shows "followerInv a b (deliverHead h f)"
proof -
  have p: "observer (deliverHead h f) = observer f"
    "latestBlockTime (deliverHead h f) = latestBlockTime f"
    "returnedHeads (trace (deliverHead h f)) = returnedHeads (trace f)"
    "failedHeads (trace (deliverHead h f)) = failedHeads (trace f)"
    by (simp_all add: deliverHead_def)
  from assms show ?thesis
    unfolding followerInv_def p .
qed

lemma inv_complete:
  assumes "followerInv a b f"
  shows "followerInv a b (completeHead a recordHead k f)"
proof (cases "find (\<lambda>h. hash h = k) (inFlight f)")
  case None
  then have "completeHead a recordHead k f = f" by (simp add: completeHead_def)
  with assms show ?thesis by (simp only:)
next
  case (Some h)
  let ?g = "completeHead a recordHead k f"
  let ?P = "\<lambda>k. (\<exists>w. isl (fst (getBlockDetails a k w))) \<or> isl (pendingExtrinsics a)"
  from Some have hk: "hash h = k" by (auto simp: find_Some_iff)
  obtain r l s c where o: "onHead a recordHead h (latestBlockTime f, fworld f, observer f) = (r, l, s, c)"
    by (cases "onHead a recordHead h (latestBlockTime f, fworld f, observer f)") auto
  from assms [unfolded followerInv_def] have
    i1: "map snd (observer f) = differences b (map fst (observer f))"
    and i2: "latestBlockTime f = last (b # map fst (observer f))"
    and i3: "map fst (observer f) = map (timestampOf a) (returnedHeads (trace f))"
    and i4: "list_all ?P (failedHeads (trace f))"
    by blast+
  from onHead_record [OF o] show ?thesis
  proof
    assume x: "r \<noteq> Inr () \<and> l = latestBlockTime f \<and> c = observer f
            \<and> (isl (fst (getBlockDetails a (hash h) (fworld f))) \<or> isl (pendingExtrinsics a))"
    then obtain e where e: "r = Inl e" by (cases r) auto
    have p: "observer ?g = observer f" "latestBlockTime ?g = latestBlockTime f"
      "returnedHeads (trace ?g) = returnedHeads (trace f)"
      "failedHeads (trace ?g) = failedHeads (trace f) @ [k]"
      using x by (simp_all add: completeHead_def Some o e)
    from x hk have "?P k" by blast
    with i4 have c4: "list_all ?P (failedHeads (trace f) @ [k])" by simp
    from i1 i2 i3 c4 show ?thesis
      unfolding followerInv_def p by blast
  next
    assume x: "r = Inr () \<and> l = timestampOf a (hash h)
            \<and> c = observer f @ [(l, l - latestBlockTime f)]"
    have p: "observer ?g = observer f @ [(l, l - latestBlockTime f)]"
      "latestBlockTime ?g = l"
      "returnedHeads (trace ?g) = returnedHeads (trace f) @ [k]"
      "failedHeads (trace ?g) = failedHeads (trace f)"
      using x by (simp_all add: completeHead_def Some o)
    have c1: "map snd (observer f @ [(l, l - latestBlockTime f)])
                = differences b (map fst (observer f @ [(l, l - latestBlockTime f)]))"
      by (simp only: map_append list.map fst_conv snd_conv differences_snoc i1 i2)
    have c2: "l = last (b # map fst (observer f @ [(l, l - latestBlockTime f)]))"
      by simp
    have c3: "map fst (observer f @ [(l, l - latestBlockTime f)])
                = map (timestampOf a) (returnedHeads (trace f) @ [k])"
      using x hk by (simp add: i3)
    from c1 c2 c3 i4 show ?thesis
      unfolding followerInv_def p by blast
  qed
qed

lemma inv_run: "followerInv a b f \<Longrightarrow> followerInv a b (runHeads a recordHead evs f)"
proof (induction evs arbitrary: f)
  case Nil
  then show ?case by simp
next
  case (Cons ev evs)
  then show ?case
    by (cases ev) (simp_all add: inv_deliver inv_complete)
qed

lemma trace_complete:
  "begunHeads (trace (completeHead a callBack k f)) = begunHeads (trace f)"
  by (auto simp: completeHead_def split: option.splits prod.splits sum.splits)

lemma begun_run:
  "begunHeads (trace (runHeads a callBack evs f)) = begunHeads (trace f) @ deliveredHeads evs"
proof (induction evs arbitrary: f)
  case Nil
  then show ?case by simp
next
  case (Cons ev evs)
  then show ?case
    by (cases ev) (simp_all add: trace_complete deliverHead_def)
qed

text \<open>The trace follows the subscription, event by event.\<close>

lemma complete_shape:
  "map succeeded (trace (completeHead a callBack k f))
     = map succeeded (trace f) @ (if k \<in> hash ` set (inFlight f) then [Returned k] else [])"
  "map hash (inFlight (completeHead a callBack k f))
     = (if k \<in> hash ` set (inFlight f) then remove1 k (map hash (inFlight f))
        else map hash (inFlight f))"
proof -
  show "map succeeded (trace (completeHead a callBack k f))
     = map succeeded (trace f) @ (if k \<in> hash ` set (inFlight f) then [Returned k] else [])"
  proof (cases "find (\<lambda>h. hash h = k) (inFlight f)")
    case None
    then have "k \<notin> hash ` set (inFlight f)" by (auto simp: find_None_iff)
    with None show ?thesis by (simp add: completeHead_def)
  next
    case (Some h)
    then have "k \<in> hash ` set (inFlight f)" by (auto simp: find_Some_iff)
    with Some show ?thesis
      by (auto simp: completeHead_def split: prod.splits sum.splits)
  qed
  show "map hash (inFlight (completeHead a callBack k f))
     = (if k \<in> hash ` set (inFlight f) then remove1 k (map hash (inFlight f))
        else map hash (inFlight f))"
  proof (cases "find (\<lambda>h. hash h = k) (inFlight f)")
    case None
    then have "k \<notin> hash ` set (inFlight f)" by (auto simp: find_None_iff)
    with None show ?thesis by (simp add: completeHead_def)
  next
    case (Some h)
    then have "k \<in> hash ` set (inFlight f)" by (auto simp: find_Some_iff)
    with Some remove1_found [OF Some] show ?thesis
      by (auto simp: completeHead_def split: prod.splits)
  qed
qed

lemma run_shape:
  "map succeeded (trace (runHeads a callBack evs f))
     = map succeeded (trace f) @ scheduleTrace (map hash (inFlight f)) evs"
proof (induction evs arbitrary: f)
  case Nil
  then show ?case by simp
next
  case (Cons ev evs)
  show ?case
  proof (cases ev)
    case (Deliver h)
    then show ?thesis
      using Cons.IH [of "deliverHead h f"] by (simp add: deliverHead_def)
  next
    case (Complete k)
    then show ?thesis
      using Cons.IH [of "completeHead a callBack k f"] by (simp add: complete_shape)
  qed
qed

text \<open>Two notifications with no handler ending in between.\<close>

lemma run_append:
  "runHeads a callBack (xs @ ys) f = runHeads a callBack ys (runHeads a callBack xs f)"
  by (induction a callBack xs f rule: runHeads.induct) simp_all

lemma complete_grows: "\<exists>es. trace (completeHead a callBack k f) = trace f @ es"
  by (auto simp: completeHead_def split: option.splits prod.splits)

lemma run_grows: "\<exists>es. trace (runHeads a callBack evs f) = trace f @ es"
proof (induction evs arbitrary: f)
  case Nil
  then show ?case by simp
next
  case (Cons ev evs)
  show ?case
  proof (cases ev)
    case (Deliver h)
    with Cons.IH [of "deliverHead h f"] show ?thesis by (auto simp: deliverHead_def)
  next
    case (Complete k)
    with Cons.IH [of "completeHead a callBack k f"] complete_grows [of a callBack k f]
    show ?thesis by auto
  qed
qed

lemma two_deliveries_overlap:
  "\<not> serialTrace (trace (runHeads a callBack (pre @ Deliver h # Deliver h' # post) f))"
proof -
  let ?g = "runHeads a callBack pre f"
  obtain es where "trace (runHeads a callBack post (deliverHead h' (deliverHead h ?g)))
                     = trace (deliverHead h' (deliverHead h ?g)) @ es"
    using run_grows by blast
  then have "trace (runHeads a callBack (pre @ Deliver h # Deliver h' # post) f)
               = trace ?g @ Begin (hash h) # Begin (hash h') # es"
    by (simp add: run_append deliverHead_def)
  then show ?thesis by (simp only: not_serial_two_begins not_False_eq_True)
qed

text \<open>One head delivered and handled to its end while no other handler is suspended.\<close>

lemma serial_step:
  assumes "inFlight f = []"
  shows "\<exists>ev. (ev = Returned (hash h) \<or> ev = Failed (hash h))
           \<and> trace (completeHead a callBack (hash h) (deliverHead h f))
               = trace f @ [Begin (hash h), ev]
           \<and> inFlight (completeHead a callBack (hash h) (deliverHead h f)) = []"
proof -
  let ?g = "deliverHead h f"
  have fl: "find (\<lambda>x. hash x = hash h) (inFlight ?g) = Some h"
    using assms by (simp add: deliverHead_def)
  obtain r l s c where o: "onHead a callBack h (latestBlockTime ?g, fworld ?g, observer ?g) = (r, l, s, c)"
    by (cases "onHead a callBack h (latestBlockTime ?g, fworld ?g, observer ?g)") auto
  show ?thesis
    using fl o assms
    by (cases r) (simp_all add: completeHead_def deliverHead_def)
qed

lemma serial_run:
  assumes "inFlight f = []"
  shows "\<exists>es. trace (runHeads a callBack (serialSchedule hs) f) = trace f @ es
            \<and> serialTrace es \<and> finishedHeads es = map hash hs
            \<and> inFlight (runHeads a callBack (serialSchedule hs) f) = []"
  using assms
proof (induction hs arbitrary: f)
  case Nil
  then show ?case by (simp add: serialSchedule_def)
next
  case (Cons h hs)
  let ?g = "completeHead a callBack (hash h) (deliverHead h f)"
  from serial_step [OF Cons.prems, of h a callBack] obtain ev where
    ev: "ev = Returned (hash h) \<or> ev = Failed (hash h)"
    and tr: "trace ?g = trace f @ [Begin (hash h), ev]" and fl: "inFlight ?g = []"
    by blast
  from Cons.IH [OF fl] obtain es where
    es: "trace (runHeads a callBack (serialSchedule hs) ?g) = trace ?g @ es"
    and st: "serialTrace es" and fin: "finishedHeads es = map hash hs"
    and fl2: "inFlight (runHeads a callBack (serialSchedule hs) ?g) = []"
    by blast
  have run: "runHeads a callBack (serialSchedule (h # hs)) f
               = runHeads a callBack (serialSchedule hs) ?g"
    by (simp add: serialSchedule_def)
  from ev show ?case
  proof
    assume "ev = Returned (hash h)"
    with tr es st fin fl2 run show ?thesis
      by (intro exI [of _ "[Begin (hash h), Returned (hash h)] @ es"]) simp
  next
    assume "ev = Failed (hash h)"
    with tr es st fin fl2 run show ?thesis
      by (intro exI [of _ "[Begin (hash h), Failed (hash h)] @ es"]) simp
  qed
qed

lemma listen_run:
  assumes "listenBlocks a finalized callBack s c = (r, f)"
    and "subscribeHeads a finalized = Inr notifications"
  shows "\<exists>s2. f = runHeads a callBack notifications
                    (startFollower (fst (startupBaseline a s)) s2 c)"
  using assms
  by (auto simp: listenBlocks_def Let_def split: prod.splits)

lemma listen_inv:
  assumes "listenBlocks a finalized recordHead s [] = (r, f)"
  shows "followerInv a (fst (startupBaseline a s)) f"
proof (cases "subscribeHeads a finalized")
  case (Inl e)
  with assms have "\<exists>s2. f = startFollower (fst (startupBaseline a s)) s2 []"
    by (auto simp: listenBlocks_def Let_def split: prod.splits)
  then show ?thesis using inv_start by auto
next
  case (Inr notifications)
  from listen_run [OF assms Inr] show ?thesis
    using inv_run [OF inv_start] by auto
qed

text \<open>The test double never fails a fetch, whatever its subscription and its caches.\<close>

lemma mock_account_total:
  "\<not> isl (fst (getAccountIdentity (mockApi\<lparr>subscribeHeads := x\<rparr>) acc w))"
  by (auto simp: getAccountIdentity_def Let_def identityMissing_def split: option.splits)

lemma mock_author_total:
  "\<not> isl (fst (getAuthorIdentity (mockApi\<lparr>subscribeHeads := x\<rparr>) author w))"
  using mock_account_total
  by (auto simp: getAuthorIdentity_def Let_def mappingMissing_def split: option.splits)

lemma mock_details_total:
  assumes "n < 5"
  shows "\<not> isl (fst (getBlockDetails (mockApi\<lparr>subscribeHeads := x\<rparr>) (mockHashes ! n) w))"
proof -
  let ?a = "mockApi\<lparr>subscribeHeads := x\<rparr>"
  let ?s3 = "afterFetches ?a (mockHashes ! n) (mockBlock n) w"
  obtain name s4 where r: "getAuthorIdentity ?a ''0xa1'' ?s3 = (Inr name, s4)"
    using mock_author_total [of x "''0xa1''" ?s3]
    by (cases "getAuthorIdentity ?a ''0xa1'' ?s3"; cases "fst (getAuthorIdentity ?a ''0xa1'' ?s3)")
      auto
  show ?thesis
    using mock_chain [OF assms] r
    by (simp add: getBlockDetails_def Let_def afterFetches_def mapExtrinsics_def
        enumerate_eq_zip toNumber_def bigint_div_def)
qed

lemma mock_baseline: "fst (startupBaseline (mockApi\<lparr>subscribeHeads := x\<rparr>) s) = 400"
  using mock_chain(2) [of 0]
  by (simp add: startupBaseline_def Let_def mockApi_def toNumber_def mockTimes_def
      mockHashes_def)

lemma mock_is_serial:
  "mockApi\<lparr>subscribeHeads :=
      (\<lambda>finalized. Inr (serialSchedule (map (\<lambda>n. header (mockBlock n)) [1, 2, 3])))\<rparr>
   = mockApi"
  by (simp add: mockApi_def)

lemma mock_follower:
  assumes l: "listenBlocks (mockApi\<lparr>subscribeHeads := (\<lambda>finalized. Inr sched)\<rparr>)
                finalized recordHead s [] = (r, f)"
    and h: "set (returnedHeads (scheduleTrace [] sched)) \<subseteq> set mockHashes"
  shows "trace f = scheduleTrace [] sched"
    and "map fst (observer f) = map (timestampOf mockApi) (returnedHeads (scheduleTrace [] sched))"
    and "map snd (observer f) = differences 400 (map fst (observer f))"
    and "latestBlockTime f = last (400 # map fst (observer f))"
    and "r = Inr ()"
proof -
  let ?a = "mockApi\<lparr>subscribeHeads := (\<lambda>finalized. Inr sched)\<rparr>"
  have sub: "subscribeHeads ?a finalized = Inr sched" by simp
  from listen_inv [OF l] have
    i1: "map snd (observer f) = differences 400 (map fst (observer f))"
    and i2: "latestBlockTime f = last (400 # map fst (observer f))"
    and i3: "map fst (observer f) = map (timestampOf ?a) (returnedHeads (trace f))"
    and i4: "\<forall>k\<in>set (failedHeads (trace f)).
               (\<exists>w. isl (fst (getBlockDetails ?a k w))) \<or> isl (pendingExtrinsics ?a)"
    unfolding followerInv_def list_all_iff mock_baseline by blast+
  from listen_run [OF l sub] obtain s2 where
    "f = runHeads ?a recordHead sched (startFollower (fst (startupBaseline ?a s)) s2 [])"
    by blast
  then have shape: "map succeeded (trace f) = scheduleTrace [] sched"
    by (simp add: run_shape startFollower_def)
  have nf: "failedHeads (trace f) = []"
  proof (rule ccontr)
    assume "failedHeads (trace f) \<noteq> []"
    then obtain k where k: "k \<in> set (failedHeads (trace f))"
      by (cases "failedHeads (trace f)") auto
    with failed_in_finished [of "trace f"] have "k \<in> set (finishedHeads (trace f))" by auto
    with h have "k \<in> set mockHashes" by (auto simp: finished_succeeded shape)
    moreover have "length mockHashes = 5" by (simp add: mockHashes_def)
    ultimately obtain n where "n < 5" "k = mockHashes ! n"
      by (auto simp: in_set_conv_nth)
    with mock_details_total [of n] i4 k show False by auto
  qed
  from succeeded_id [OF nf] shape show tr: "trace f = scheduleTrace [] sched" by simp
  have "timestampOf ?a = timestampOf mockApi" by (simp add: timestampOf_def fun_eq_iff)
  with i3 tr show "map fst (observer f)
      = map (timestampOf mockApi) (returnedHeads (scheduleTrace [] sched))" by simp
  from i1 show "map snd (observer f) = differences 400 (map fst (observer f))" .
  from i2 show "latestBlockTime f = last (400 # map fst (observer f))" .
  from l show "r = Inr ()" by (auto simp: listenBlocks_def Let_def split: prod.splits)
qed

lemma pairs_of_columns:
  "map fst xs = ts \<Longrightarrow> map snd xs = es \<Longrightarrow> xs = zip ts es"
  by (auto simp: zip_map_fst_snd)

text \<open>
  C8, as the code has it. Whatever the subscription of \<^verbatim>\<open>listenBlocks\<close> does, a handler
  reads and writes \<^verbatim>\<open>latestBlockTime\<close> when its fetches are there, not when its head is
  notified. So the callbacks are invoked in the order in which the handlers end: one
  callback for each handler that ends without a failed fetch, with the timestamp of its
  block and, as elapsed time, that timestamp minus the timestamp given to the callback
  before it (the startup baseline for the first); \<^verbatim>\<open>latestBlockTime\<close> is the timestamp
  given to the last callback. Every handler whose fetches arrive ends, and it fails only
  when one of its fetches can fail. For three heads with the timestamps 1000, 4000 and
  9000 whose handlers end in the order of the notifications, none failing, the callbacks
  get the elapsed times 1000 minus the baseline, 3000 and 5000.
\<close>

theorem follower_elapsed_times:
  assumes "listenBlocks a finalized recordHead s [] = (r, f)"
  shows "map snd (observer f) = differences (fst (startupBaseline a s)) (map fst (observer f))
       \<and> latestBlockTime f = last (fst (startupBaseline a s) # map fst (observer f))
       \<and> map fst (observer f) = map (timestampOf a) (returnedHeads (trace f))
       \<and> (\<forall>k\<in>set (failedHeads (trace f)).
             (\<exists>w. isl (fst (getBlockDetails a k w))) \<or> isl (pendingExtrinsics a))
       \<and> (\<forall>notifications. subscribeHeads a finalized = Inr notifications \<longrightarrow>
             map succeeded (trace f) = scheduleTrace [] notifications)
       \<and> (\<forall>notifications hs.
             subscribeHeads a finalized = Inr notifications
               \<and> deliveredHeads notifications = map hash hs
               \<and> returnedHeads (scheduleTrace [] notifications) = map hash hs
               \<and> map (\<lambda>h. timestampOf a (hash h)) hs = [1000, 4000, 9000]
               \<and> failedHeads (trace f) = []
             \<longrightarrow> observer f
                   = [(1000, 1000 - fst (startupBaseline a s)), (4000, 3000), (9000, 5000)])"
proof -
  let ?b = "fst (startupBaseline a s)"
  from listen_inv [OF assms] have
    i1: "map snd (observer f) = differences ?b (map fst (observer f))"
    and i2: "latestBlockTime f = last (?b # map fst (observer f))"
    and i3: "map fst (observer f) = map (timestampOf a) (returnedHeads (trace f))"
    and i4: "\<forall>k\<in>set (failedHeads (trace f)).
               (\<exists>w. isl (fst (getBlockDetails a k w))) \<or> isl (pendingExtrinsics a)"
    unfolding followerInv_def list_all_iff by blast+
  have shape: "map succeeded (trace f) = scheduleTrace [] notifications"
    if "subscribeHeads a finalized = Inr notifications" for notifications
  proof -
    from listen_run [OF assms that] obtain s2 where
      "f = runHeads a recordHead notifications (startFollower ?b s2 [])"
      by blast
    then show ?thesis by (simp add: run_shape startFollower_def)
  qed
  have ex: "observer f = [(1000, 1000 - ?b), (4000, 3000), (9000, 5000)]"
    if h: "subscribeHeads a finalized = Inr notifications
               \<and> deliveredHeads notifications = map hash hs
               \<and> returnedHeads (scheduleTrace [] notifications) = map hash hs
               \<and> map (\<lambda>h. timestampOf a (hash h)) hs = [1000, 4000, 9000]
               \<and> failedHeads (trace f) = []" for notifications hs
  proof -
    from h shape have "map succeeded (trace f) = scheduleTrace [] notifications" by blast
    with h succeeded_id [of "trace f"] have "returnedHeads (trace f) = map hash hs" by simp
    with i3 h have ts: "map fst (observer f) = [1000, 4000, 9000]"
      by (simp add: o_def)
    with i1 have "map snd (observer f) = [1000 - ?b, 3000, 5000]" by simp
    from pairs_of_columns [OF ts this] show ?thesis by simp
  qed
  from i1 i2 i3 i4 shape ex show ?thesis by blast
qed

text \<open>
  The three heads notified before any handler has its fetches, those of the first head
  coming last: the elapsed times are 3600, 5000 and -8000.
\<close>

theorem overlapping_heads_elapsed:
  "subscribeHeads overlapApi False
     = Inr [Deliver (header (mockBlock 1)), Deliver (header (mockBlock 2)),
            Deliver (header (mockBlock 3)),
            Complete ''0xb2'', Complete ''0xb3'', Complete ''0xb1'']
   \<and> timestampOf overlapApi (hash (header (mockBlock 1))) = 1000
   \<and> timestampOf overlapApi (hash (header (mockBlock 2))) = 4000
   \<and> timestampOf overlapApi (hash (header (mockBlock 3))) = 9000
   \<and> fst (startupBaseline overlapApi emptyWorld) = 400
   \<and> fst (listenBlocks overlapApi False recordHead emptyWorld []) = Inr ()
   \<and> observer (snd (listenBlocks overlapApi False recordHead emptyWorld []))
       = [(4000, 3600), (9000, 5000), (1000, - 8000)]
   \<and> latestBlockTime (snd (listenBlocks overlapApi False recordHead emptyWorld [])) = 1000
   \<and> map snd (observer (snd (listenBlocks overlapApi False recordHead emptyWorld [])))
       \<noteq> [1000 - 400, 3000, 5000]"
proof -
  let ?sched = "[Deliver (header (mockBlock 1)), Deliver (header (mockBlock 2)),
            Deliver (header (mockBlock 3)),
            Complete ''0xb2'', Complete ''0xb3'', Complete ''0xb1'']"
  let ?X = "listenBlocks overlapApi False recordHead emptyWorld []"
  have run: "listenBlocks (mockApi\<lparr>subscribeHeads := (\<lambda>finalized. Inr ?sched)\<rparr>)
               False recordHead emptyWorld [] = (fst ?X, snd ?X)"
    by (simp add: overlapApi_def)
  have tr: "scheduleTrace [] ?sched
              = [Begin ''0xb1'', Begin ''0xb2'', Begin ''0xb3'',
                 Returned ''0xb2'', Returned ''0xb3'', Returned ''0xb1'']"
    by (simp add: mockHashes_def)
  have sub: "set (returnedHeads (scheduleTrace [] ?sched)) \<subseteq> set mockHashes"
    unfolding tr by (simp add: mockHashes_def)
  have t: "timestampOf mockApi ''0xb1'' = 1000" "timestampOf mockApi ''0xb2'' = 4000"
    "timestampOf mockApi ''0xb3'' = 9000"
    by (simp_all add: timestampOf_def mockApi_def mockTimes_def)
  from mock_follower(2) [OF run sub, unfolded tr]
  have ts: "map fst (observer (snd ?X)) = [4000, 9000, 1000]" by (simp add: t)
  with mock_follower(3) [OF run sub]
  have es: "map snd (observer (snd ?X)) = [3600, 5000, - 8000]" by simp
  from pairs_of_columns [OF ts es]
  have obs: "observer (snd ?X) = [(4000, 3600), (9000, 5000), (1000, - 8000)]" by simp
  from mock_follower(4) [OF run sub] ts
  have latest: "latestBlockTime (snd ?X) = 1000" by simp
  have b: "fst (startupBaseline overlapApi emptyWorld) = 400"
    by (simp add: overlapApi_def mock_baseline)
  have a: "timestampOf overlapApi (hash (header (mockBlock 1))) = 1000"
    "timestampOf overlapApi (hash (header (mockBlock 2))) = 4000"
    "timestampOf overlapApi (hash (header (mockBlock 3))) = 9000"
    by (simp_all add: timestampOf_def overlapApi_def mockApi_def mockTimes_def mockHashes_def)
  have s: "subscribeHeads overlapApi False = Inr ?sched" by (simp add: overlapApi_def)
  from s a b mock_follower(5) [OF run sub] obs latest es show ?thesis by simp
qed

theorem follower_elapsed_witness:
  "fst (startupBaseline mockApi emptyWorld) = 400
   \<and> observer (snd (listenBlocks mockApi False recordHead emptyWorld []))
       = [(1000, 600), (4000, 3000), (9000, 5000)]
   \<and> latestBlockTime (snd (listenBlocks mockApi False recordHead emptyWorld [])) = 9000
   \<and> trace (snd (listenBlocks mockApi False recordHead emptyWorld []))
       = [Begin ''0xb1'', Returned ''0xb1'', Begin ''0xb2'', Returned ''0xb2'',
          Begin ''0xb3'', Returned ''0xb3'']"
proof -
  let ?hs = "map (\<lambda>n. header (mockBlock n)) [1, 2, 3]"
  let ?X = "listenBlocks mockApi False recordHead emptyWorld []"
  have run: "listenBlocks (mockApi\<lparr>subscribeHeads := (\<lambda>finalized. Inr (serialSchedule ?hs))\<rparr>)
               False recordHead emptyWorld [] = (fst ?X, snd ?X)"
    by (simp only: mock_is_serial prod.collapse)
  have tr: "scheduleTrace [] (serialSchedule ?hs)
              = [Begin ''0xb1'', Returned ''0xb1'', Begin ''0xb2'', Returned ''0xb2'',
                 Begin ''0xb3'', Returned ''0xb3'']"
    by (simp add: serialSchedule_def mockHashes_def)
  have sub: "set (returnedHeads (scheduleTrace [] (serialSchedule ?hs))) \<subseteq> set mockHashes"
    unfolding tr by (simp add: mockHashes_def)
  from mock_follower(1) [OF run sub, unfolded tr]
  have trace: "trace (snd ?X) = [Begin ''0xb1'', Returned ''0xb1'', Begin ''0xb2'',
      Returned ''0xb2'', Begin ''0xb3'', Returned ''0xb3'']" by simp
  have b: "fst (startupBaseline mockApi emptyWorld) = 400"
    using mock_baseline [of "subscribeHeads mockApi" emptyWorld] by simp
  have hyp: "subscribeHeads mockApi False = Inr (serialSchedule ?hs)
               \<and> deliveredHeads (serialSchedule ?hs) = map hash ?hs
               \<and> returnedHeads (scheduleTrace [] (serialSchedule ?hs)) = map hash ?hs
               \<and> map (\<lambda>h. timestampOf mockApi (hash h)) ?hs = [1000, 4000, 9000]
               \<and> failedHeads (trace (snd ?X)) = []"
    unfolding tr trace
    by (simp add: mockApi_def serialSchedule_def mockHashes_def timestampOf_def mockTimes_def)
  have x: "?X = (fst ?X, snd ?X)" by simp
  note T = follower_elapsed_times [OF x]
  note ex = T [THEN conjunct2, THEN conjunct2, THEN conjunct2, THEN conjunct2, THEN conjunct2]
  from ex [rule_format, OF hyp] b
  have obs: "observer (snd ?X) = [(1000, 600), (4000, 3000), (9000, 5000)]" by simp
  note T [THEN conjunct2, THEN conjunct1]
  with obs have latest: "latestBlockTime (snd ?X) = 9000" by simp
  from b obs latest trace show ?thesis by simp
qed

text \<open>
  C9, as the code has it. \<^verbatim>\<open>listenBlocks\<close> has no queue and no lock, and its handler is
  an \<^verbatim>\<open>async\<close> function that nothing awaits: the aggregation for a head begins when the
  head is notified, whatever handlers are suspended, so the trace follows the
  subscription event by event. The heads are handled strictly one at a time, in the
  order of arrival, when every notification comes after the handler of the head before
  has ended; two notifications with no handler ending in between make the aggregation
  for the second head begin before the callback for the first has returned.
\<close>

theorem follower_begins_on_delivery:
  assumes "listenBlocks a finalized callBack s c = (r, f)"
    and "subscribeHeads a finalized = Inr notifications"
  shows "map succeeded (trace f) = scheduleTrace [] notifications
       \<and> begunHeads (trace f) = deliveredHeads notifications
       \<and> (\<forall>hs. notifications = serialSchedule hs \<longrightarrow>
             serialTrace (trace f) \<and> finishedHeads (trace f) = map hash hs)
       \<and> (\<forall>pre h h' post. notifications = pre @ Deliver h # Deliver h' # post \<longrightarrow>
             \<not> serialTrace (trace f))"
proof -
  from listen_run [OF assms] obtain s2 where
    f: "f = runHeads a callBack notifications (startFollower (fst (startupBaseline a s)) s2 c)"
    by blast
  have sh: "map succeeded (trace f) = scheduleTrace [] notifications"
    by (simp add: f run_shape startFollower_def)
  have b: "begunHeads (trace f) = deliveredHeads notifications"
    by (simp add: f begun_run startFollower_def)
  have ser: "serialTrace (trace f) \<and> finishedHeads (trace f) = map hash hs"
    if "notifications = serialSchedule hs" for hs
    using serial_run [of "startFollower (fst (startupBaseline a s)) s2 c" a callBack hs] that
    by (auto simp: f startFollower_def)
  have ov: "\<not> serialTrace (trace f)"
    if "notifications = pre @ Deliver h # Deliver h' # post" for pre h h' post
    unfolding f that by (rule two_deliveries_overlap)
  from sh b ser ov show ?thesis by blast
qed

text \<open>On the same subscription the three aggregations begin before any callback returns.\<close>

theorem overlapping_heads_trace:
  "subscribeHeads overlapApi False
     = Inr [Deliver (header (mockBlock 1)), Deliver (header (mockBlock 2)),
            Deliver (header (mockBlock 3)),
            Complete ''0xb2'', Complete ''0xb3'', Complete ''0xb1'']
   \<and> fst (listenBlocks overlapApi False recordHead emptyWorld []) = Inr ()
   \<and> trace (snd (listenBlocks overlapApi False recordHead emptyWorld []))
       = [Begin ''0xb1'', Begin ''0xb2'', Begin ''0xb3'',
          Returned ''0xb2'', Returned ''0xb3'', Returned ''0xb1'']
   \<and> \<not> serialTrace (trace (snd (listenBlocks overlapApi False recordHead emptyWorld [])))"
proof -
  let ?sched = "[Deliver (header (mockBlock 1)), Deliver (header (mockBlock 2)),
            Deliver (header (mockBlock 3)),
            Complete ''0xb2'', Complete ''0xb3'', Complete ''0xb1'']"
  let ?X = "listenBlocks overlapApi False recordHead emptyWorld []"
  have run: "listenBlocks (mockApi\<lparr>subscribeHeads := (\<lambda>finalized. Inr ?sched)\<rparr>)
               False recordHead emptyWorld [] = (fst ?X, snd ?X)"
    by (simp add: overlapApi_def)
  have tr: "scheduleTrace [] ?sched
              = [Begin ''0xb1'', Begin ''0xb2'', Begin ''0xb3'',
                 Returned ''0xb2'', Returned ''0xb3'', Returned ''0xb1'']"
    by (simp add: mockHashes_def)
  have sub: "set (returnedHeads (scheduleTrace [] ?sched)) \<subseteq> set mockHashes"
    unfolding tr by (simp add: mockHashes_def)
  have s: "subscribeHeads overlapApi False = Inr ?sched" by (simp add: overlapApi_def)
  from mock_follower(1) [OF run sub, unfolded tr]
  have "trace (snd ?X) = [Begin ''0xb1'', Begin ''0xb2'', Begin ''0xb3'',
          Returned ''0xb2'', Returned ''0xb3'', Returned ''0xb1'']" by simp
  with s mock_follower(5) [OF run sub] show ?thesis by simp
qed

theorem follower_begins_witness:
  "begunHeads (trace (snd (listenBlocks mockApi False recordHead emptyWorld [])))
     = [''0xb1'', ''0xb2'', ''0xb3'']
   \<and> finishedHeads (trace (snd (listenBlocks mockApi False recordHead emptyWorld [])))
     = [''0xb1'', ''0xb2'', ''0xb3'']
   \<and> serialTrace (trace (snd (listenBlocks mockApi False recordHead emptyWorld [])))
   \<and> begunHeads (trace (snd (listenBlocks overlapApi False recordHead emptyWorld [])))
     = [''0xb1'', ''0xb2'', ''0xb3'']
   \<and> \<not> serialTrace (trace (snd (listenBlocks overlapApi False recordHead emptyWorld [])))"
proof -
  let ?hs = "map (\<lambda>n. header (mockBlock n)) [1, 2, 3]"
  let ?X = "listenBlocks mockApi False recordHead emptyWorld []"
  let ?post = "[Deliver (header (mockBlock 3)),
            Complete ''0xb2'', Complete ''0xb3'', Complete ''0xb1'']"
  let ?sched = "[] @ Deliver (header (mockBlock 1)) # Deliver (header (mockBlock 2)) # ?post"
  let ?Y = "listenBlocks overlapApi False recordHead emptyWorld []"
  have x: "?X = (fst ?X, snd ?X)" and y: "?Y = (fst ?Y, snd ?Y)" by simp_all
  have sx: "subscribeHeads mockApi False = Inr (serialSchedule ?hs)"
    by (simp add: mockApi_def)
  have sy: "subscribeHeads overlapApi False = Inr ?sched"
    by (simp add: overlapApi_def)
  note TX = follower_begins_on_delivery [OF x sx]
  note TY = follower_begins_on_delivery [OF y sy]
  from TX have "begunHeads (trace (snd ?X)) = deliveredHeads (serialSchedule ?hs)"
    and "serialTrace (trace (snd ?X)) \<and> finishedHeads (trace (snd ?X)) = map hash ?hs"
    by blast+
  moreover from TY have "begunHeads (trace (snd ?Y)) = deliveredHeads ?sched"
    and "\<not> serialTrace (trace (snd ?Y))"
    by blast+
  ultimately show ?thesis
    by (simp add: serialSchedule_def mockHashes_def)
qed

section \<open>Snapshot formatter: the clock and the synthetic snapshot\<close>

lemma plain_run: "generateBlockDetailsLog plainEnv syntheticNow None (Some syntheticBefore) = Inr plainLine"
  by code_simp

lemma color_run: "generateBlockDetailsLog colorEnv syntheticNow None (Some syntheticBefore) = Inr colorLine"
  by code_simp

lemma later_run:
  "generateBlockDetailsLog laterEnv syntheticNow None (Some syntheticBefore)
     = Inr (''00:00:01'' @ drop 8 plainLine)"
  by code_simp

lemma plain_contains:
  "containsText plainLine ''45.00%''" "containsText plainLine '' 0.005 fees''"
  "containsText plainLine ''(+ 10)''" "containsText plainLine ''3.0s''"
  "\<not> containsText plainLine ''(+10)''"
  by code_simp+

lemma color_contains:
  "containsText colorLine ''(+ 10)''" "containsText colorLine ''3.0s''"
  "\<not> containsText colorLine ''(+10)''"
  "\<not> containsText colorLine ''45.00%''" "\<not> containsText colorLine '' 0.005 fees''"
  "containsText colorLine ([CHR 0x1B] @ ''[33m45.00'' @ [CHR 0x1B] @ ''[39m%'')"
  "containsText colorLine ([CHR 0x1B] @ ''[32m0.005'' @ [CHR 0x1B] @ ''[39m fees'')"
  by code_simp+


lemma chalk_colors: "colors e1 = colors e2 \<Longrightarrow> chalk e1 code t = chalk e2 code t"
  by (simp add: chalk_def)

lemma pieces_colors:
  assumes "colors e1 = colors e2"
  shows "weightText e1 d = weightText e2 d"
    and "feesText e1 fees = feesText e2 fees"
    and "extText e1 d = extText e2 d"
    and "evmText e1 d = evmText e2 d"
    and "coloredTransferred e1 v = coloredTransferred e2 v"
    and "txPoolText e1 p = txPoolText e2 p"
    and "poolIncText e1 p q = poolIncText e2 p q"
    and "secondText e1 d d' = secondText e2 d d'"
  using chalk_colors [OF assms]
  by (simp_all add: weightText_def feesText_def extText_def evmText_def coloredTransferred_def
      txPoolText_def poolIncText_def secondText_def red_def green_def yellow_def Let_def)

lemma parts_colors:
  assumes "colors e1 = colors e2"
  shows "poolPart e1 b p = poolPart e2 b p" and "secondsPart e1 b p = secondsPart e2 b p"
  using pieces_colors [OF assms]
  by (simp_all add: poolPart_def secondsPart_def split: option.splits)

lemma length_localeTime [simp]: "length (localeTime e) = 8"
  by (simp add: localeTime_def twoDigits_def Let_def)

lemma log_shape:
  "generateBlockDetailsLog e b options p = Inr l \<Longrightarrow> take 8 l = localeTime e"
  by (auto simp: generateBlockDetailsLog_def Let_def split: sum.splits)

lemma log_rest:
  assumes "colors e1 = colors e2"
  shows "map_sum id (drop 8) (generateBlockDetailsLog e1 b options p)
       = map_sum id (drop 8) (generateBlockDetailsLog e2 b options p)"
  using pieces_colors [OF assms] parts_colors [OF assms]
  by (simp add: generateBlockDetailsLog_def Let_def split: sum.splits)

text \<open>
  C5, as the code has it. \<^verbatim>\<open>generateBlockDetailsLog\<close> reads the wall clock: a line starts
  with the local time of day of the call, in eight characters. What follows these is
  determined by the snapshot, the previous snapshot, the options and whether chalk
  colours: two calls on the same arguments agree after the time, fail with the same
  error if one fails, and return the identical line when the time of day is the same.
  The function has no effect on any state: it returns a value and nothing else.
\<close>

theorem log_depends_on_clock_by_time_prefix_only:
  assumes "colors e1 = colors e2"
  shows "(\<forall>l1. generateBlockDetailsLog e1 b options p = Inr l1 \<longrightarrow>
            (\<exists>l2. generateBlockDetailsLog e2 b options p = Inr l2
                 \<and> take 8 l1 = localeTime e1 \<and> take 8 l2 = localeTime e2
                 \<and> drop 8 l1 = drop 8 l2))
       \<and> (\<forall>err. generateBlockDetailsLog e1 b options p = Inl err \<longrightarrow>
            generateBlockDetailsLog e2 b options p = Inl err)
       \<and> (localeTime e1 = localeTime e2 \<longrightarrow>
            generateBlockDetailsLog e1 b options p = generateBlockDetailsLog e2 b options p)"
proof (intro conjI allI impI)
  fix l1
  assume a: "generateBlockDetailsLog e1 b options p = Inr l1"
  with log_rest [OF assms, of b options p]
  obtain l2 where l2: "generateBlockDetailsLog e2 b options p = Inr l2"
    and d: "drop 8 l1 = drop 8 l2"
    by (cases "generateBlockDetailsLog e2 b options p") auto
  from log_shape [OF a] log_shape [OF l2] l2 d
  show "\<exists>l2. generateBlockDetailsLog e2 b options p = Inr l2
          \<and> take 8 l1 = localeTime e1 \<and> take 8 l2 = localeTime e2 \<and> drop 8 l1 = drop 8 l2"
    by blast
next
  fix err
  assume "generateBlockDetailsLog e1 b options p = Inl err"
  with log_rest [OF assms, of b options p]
  show "generateBlockDetailsLog e2 b options p = Inl err"
    by (cases "generateBlockDetailsLog e2 b options p") auto
next
  assume t: "localeTime e1 = localeTime e2"
  show "generateBlockDetailsLog e1 b options p = generateBlockDetailsLog e2 b options p"
  proof (cases "generateBlockDetailsLog e1 b options p")
    case (Inl err)
    with log_rest [OF assms, of b options p] show ?thesis
      by (cases "generateBlockDetailsLog e2 b options p") auto
  next
    case (Inr l1)
    with log_rest [OF assms, of b options p]
    obtain l2 where l2: "generateBlockDetailsLog e2 b options p = Inr l2"
      and d: "drop 8 l1 = drop 8 l2"
      by (cases "generateBlockDetailsLog e2 b options p") auto
    from log_shape [OF Inr] log_shape [OF l2] t have "take 8 l1 = take 8 l2" by simp
    with d have "l1 = l2" by (metis append_take_drop_id)
    with Inr l2 show ?thesis by simp
  qed
qed

text \<open>
  The claim as stated fails: the same snapshot, previous snapshot and options are
  rendered to different lines one second apart.
\<close>

theorem log_changes_with_the_clock:
  "generateBlockDetailsLog plainEnv syntheticNow None (Some syntheticBefore)
     \<noteq> generateBlockDetailsLog laterEnv syntheticNow None (Some syntheticBefore)"
  by (simp add: plain_run later_run plainLine_def)

lemma broken_run:
  "generateBlockDetailsLog plainEnv brokenSnapshot None None = Inl TypeError"
  by (simp add: generateBlockDetailsLog_def brokenSnapshot_def totalFees_def)

lemma env_times:
  "localeTime plainEnv = ''00:00:00''" "localeTime laterEnv = ''00:00:01''"
  "localeTime nextDayEnv = ''00:00:00''"
  by code_simp+

text \<open>
  On the synthetic snapshot at midnight, one second later and one day later, and on a
  snapshot that makes the formatter fail.
\<close>

theorem log_time_prefix_witness:
  "colors plainEnv = colors laterEnv
   \<and> generateBlockDetailsLog plainEnv syntheticNow None (Some syntheticBefore) = Inr plainLine
   \<and> (\<exists>l2. generateBlockDetailsLog laterEnv syntheticNow None (Some syntheticBefore) = Inr l2
          \<and> take 8 plainLine = ''00:00:00'' \<and> take 8 l2 = ''00:00:01''
          \<and> drop 8 plainLine = drop 8 l2)
   \<and> generateBlockDetailsLog plainEnv brokenSnapshot None None = Inl TypeError
   \<and> generateBlockDetailsLog laterEnv brokenSnapshot None None = Inl TypeError
   \<and> localeTime plainEnv = localeTime nextDayEnv
   \<and> generateBlockDetailsLog nextDayEnv syntheticNow None (Some syntheticBefore) = Inr plainLine"
proof -
  have c: "colors plainEnv = colors laterEnv" and c2: "colors plainEnv = colors nextDayEnv"
    by (simp_all add: plainEnv_def laterEnv_def nextDayEnv_def)
  from log_depends_on_clock_by_time_prefix_only [OF c, of syntheticNow None "Some syntheticBefore"]
    log_depends_on_clock_by_time_prefix_only [OF c, of brokenSnapshot None None]
    log_depends_on_clock_by_time_prefix_only [OF c2, of syntheticNow None "Some syntheticBefore"]
    plain_run broken_run c env_times
  show ?thesis by auto
qed

text \<open>
  C6, as the code has it. For the synthetic snapshot, whose pool holds the 40 pending
  transactions of the previous snapshot and 10 new ones: without colours the line
  contains \<^verbatim>\<open>45.00%\<close>, \<^verbatim>\<open> 0.005 fees\<close>, \<^verbatim>\<open>(+ 10)\<close> (the count is padded to three
  characters) and \<^verbatim>\<open>3.0s\<close>; with colours it contains \<^verbatim>\<open>(+ 10)\<close> and \<^verbatim>\<open>3.0s\<close>, and
  the weight and the fees wrapped in the escape sequences of yellow and green, before
  \<^verbatim>\<open>%\<close> and \<^verbatim>\<open> fees\<close>.
\<close>

theorem synthetic_snapshot_line:
  "generateBlockDetailsLog plainEnv syntheticNow None (Some syntheticBefore) = Inr plainLine
   \<and> containsText plainLine ''45.00%'' \<and> containsText plainLine '' 0.005 fees''
   \<and> containsText plainLine ''(+ 10)'' \<and> containsText plainLine ''3.0s''
   \<and> generateBlockDetailsLog colorEnv syntheticNow None (Some syntheticBefore) = Inr colorLine
   \<and> containsText colorLine ([CHR 0x1B] @ ''[33m45.00'' @ [CHR 0x1B] @ ''[39m%'')
   \<and> containsText colorLine ([CHR 0x1B] @ ''[32m0.005'' @ [CHR 0x1B] @ ''[39m fees'')
   \<and> containsText colorLine ''(+ 10)'' \<and> containsText colorLine ''3.0s''"
  using plain_run color_run plain_contains color_contains by simp

text \<open>
  The claim as stated fails: the line of the synthetic snapshot does not contain
  \<^verbatim>\<open>(+10)\<close>, with colours or without, and with colours it contains neither
  \<^verbatim>\<open>45.00%\<close> nor \<^verbatim>\<open> 0.005 fees\<close>.
\<close>

theorem synthetic_line_lacks_claimed_text:
  "generateBlockDetailsLog plainEnv syntheticNow None (Some syntheticBefore) = Inr plainLine
   \<and> \<not> containsText plainLine ''(+10)''
   \<and> generateBlockDetailsLog colorEnv syntheticNow None (Some syntheticBefore) = Inr colorLine
   \<and> \<not> containsText colorLine ''(+10)''
   \<and> \<not> containsText colorLine ''45.00%'' \<and> \<not> containsText colorLine '' 0.005 fees''"
  using plain_run color_run plain_contains color_contains by simp

end
